theory Spec2Isabelle
  imports Main "HOL-Library.Char_ord" "HOL-Library.List_Lexorder"
begin

section \<open>Strings\<close>

text \<open>
  Python's \<open>str\<close> is modelled by \<^typ>\<open>string\<close>: a character is a code point below 256,
  and text with a code point from 256 on is outside the model. The whitespace test, the
  line-break test and the digit test are those of Python on every code point below 256. The
  letter and word classes and the case mappings are those of Python on ASCII; a character
  outside ASCII is taken to be caseless and no word character.
\<close>

definition is_upper :: "char \<Rightarrow> bool" where
  "is_upper c = (CHR ''A'' \<le> c \<and> c \<le> CHR ''Z'')"

definition is_lower :: "char \<Rightarrow> bool" where
  "is_lower c = (CHR ''a'' \<le> c \<and> c \<le> CHR ''z'')"

definition is_digit :: "char \<Rightarrow> bool" where
  "is_digit c = (CHR ''0'' \<le> c \<and> c \<le> CHR ''9'')"

text \<open>The characters \<open>str.strip\<close> and \<open>str.split\<close> take for whitespace, which are those
  \<open>\s\<close> of the \<open>re\<close> module matches: tab, line feed, vertical tab, form feed, carriage
  return, the four separators 28..31, the space, next line (\<open>0x85\<close>) and the no-break space
  (\<open>0xA0\<close>).\<close>

definition is_space :: "char \<Rightarrow> bool" where
  "is_space c =
     ((CHR 0x09 \<le> c \<and> c \<le> CHR 0x0D) \<or> (CHR 0x1C \<le> c \<and> c \<le> CHR 0x20)
      \<or> c = CHR 0x85 \<or> c = CHR 0xA0)"

text \<open>\<open>\w\<close> of the \<open>re\<close> module on ASCII: letters, digits and the underscore.\<close>

definition is_word :: "char \<Rightarrow> bool" where
  "is_word c = (is_upper c \<or> is_lower c \<or> is_digit c \<or> c = CHR ''_'')"

definition lower_chr :: "char \<Rightarrow> char" where
  "lower_chr c = (if is_upper c then char_of ((of_char c :: nat) + 32) else c)"

definition upper_chr :: "char \<Rightarrow> char" where
  "upper_chr c = (if is_lower c then char_of ((of_char c :: nat) - 32) else c)"

definition str_lower :: "string \<Rightarrow> string" where
  "str_lower s = map lower_chr s"

definition str_upper :: "string \<Rightarrow> string" where
  "str_upper s = map upper_chr s"

text \<open>\<open>str.capitalize\<close>: first character upper case, the rest lower case.\<close>

fun capitalize :: "string \<Rightarrow> string" where
  "capitalize [] = []"
| "capitalize (c # cs) = upper_chr c # str_lower cs"

definition lstrip :: "string \<Rightarrow> string" where
  "lstrip s = dropWhile is_space s"

definition strip :: "string \<Rightarrow> string" where
  "strip s = rev (dropWhile is_space (rev (dropWhile is_space s)))"

text \<open>\<open>str.replace\<close> for a one-character pattern and replacement.\<close>

definition replace_chr :: "char \<Rightarrow> char \<Rightarrow> string \<Rightarrow> string" where
  "replace_chr a b s = map (\<lambda>c. if c = a then b else c) s"

definition startswith :: "string \<Rightarrow> string \<Rightarrow> bool" where
  "startswith s p = (take (length p) s = p)"

definition endswith :: "string \<Rightarrow> string \<Rightarrow> bool" where
  "endswith s p = (length p \<le> length s \<and> drop (length s - length p) s = p)"

text \<open>\<open>sub in s\<close> on strings: \<open>sub\<close> occurs as a contiguous slice of \<open>s\<close>.\<close>

fun str_contains :: "string \<Rightarrow> string \<Rightarrow> bool" where
  "str_contains [] sub = (sub = [])"
| "str_contains (c # cs) sub = (startswith (c # cs) sub \<or> str_contains cs sub)"

text \<open>\<open>sep.join(xs)\<close>.\<close>

fun join :: "string \<Rightarrow> string list \<Rightarrow> string" where
  "join sep [] = []"
| "join sep [x] = x"
| "join sep (x # y # ys) = x @ sep @ join sep (y # ys)"

text \<open>\<open>str.split()\<close> without arguments: the maximal runs of non-whitespace characters.
  The accumulator holds the current run, reversed.\<close>

fun split_acc :: "string \<Rightarrow> string \<Rightarrow> string list" where
  "split_acc acc [] = (if acc = [] then [] else [rev acc])"
| "split_acc acc (c # cs) =
     (if is_space c then (if acc = [] then split_acc [] cs else rev acc # split_acc [] cs)
      else split_acc (c # acc) cs)"

definition split_ws :: "string \<Rightarrow> string list" where
  "split_ws s = split_acc [] s"

section \<open>Title Case Transformer\<close>

text \<open>The class attribute \<open>PRESERVE_TERMS\<close>. The configuration loader may add terms to it,
  so the transformer takes the set in force as an argument.\<close>

definition PRESERVE_TERMS :: "string set" where
  "PRESERVE_TERMS = set [''API'', ''APIs'', ''UI'', ''UX'', ''CSS'', ''HTML'', ''JS'', ''JSON'',
     ''YAML'', ''XML'', ''SQL'', ''HTTP'', ''HTTPS'', ''URL'', ''URI'', ''ID'', ''iOS'', ''macOS'',
     ''IDE'', ''CLI'', ''GUI'', ''REST'', ''GraphQL'', ''OAuth'', ''JWT'', ''PDF'',
     ''PNG'', ''JPG'', ''GIF'', ''SVG'', ''MP3'', ''MP4'', ''ZIP'', ''README'']"

text \<open>\<open>re.sub(r'^\d{2}-\s*', '', text)\<close>: two digits, a hyphen and the whitespace after it
  are removed when the text begins with them; anything else is left as it is.\<close>

fun strip_org_prefix :: "string \<Rightarrow> string" where
  "strip_org_prefix (a # b # c # rest) =
     (if is_digit a \<and> is_digit b \<and> c = CHR ''-'' then dropWhile is_space rest
      else a # b # c # rest)"
| "strip_org_prefix s = s"

definition title_word :: "string set \<Rightarrow> string \<Rightarrow> string" where
  "title_word terms word =
     (if str_upper word \<in> terms then str_upper word
      else if word \<in> terms then word
      else capitalize word)"

definition to_title_case :: "string set \<Rightarrow> string \<Rightarrow> string" where
  "to_title_case terms text0 =
     (let text1 = replace_chr CHR ''_'' CHR '' '' (replace_chr CHR ''-'' CHR '' '' text0);
          text2 = strip_org_prefix text1;
          ws = split_ws text2
      in join '' '' (map (title_word terms) ws))"

section \<open>Patterns\<close>

text \<open>
  The built-in rule tables are regular expressions made of literal characters, character
  classes, \<open>\d\<close>, \<open>\w\<close>, fixed repetition and \<open>+\<close>. Such a pattern is a sequence of items:
  a character class taken once, or taken one or more times.
\<close>

datatype item = Once "char \<Rightarrow> bool" | Plus "char \<Rightarrow> bool"

text \<open>The pattern matches a prefix of the text.\<close>

fun match_items :: "item list \<Rightarrow> string \<Rightarrow> bool" where
  "match_items [] s = True"
| "match_items (Once p # its) [] = False"
| "match_items (Once p # its) (c # cs) = (if p c then match_items its cs else False)"
| "match_items (Plus p # its) [] = False"
| "match_items (Plus p # its) (c # cs) =
     (if p c then (if match_items its cs then True else match_items (Plus p # its) cs)
      else False)"

text \<open>\<open>re.search(pattern, s)\<close> finds a match: the pattern matches at some position.\<close>

fun re_search :: "item list \<Rightarrow> string \<Rightarrow> bool" where
  "re_search its [] = match_items its []"
| "re_search its (c # cs) = (if match_items its (c # cs) then True else re_search its cs)"

text \<open>A literal word under \<open>re.IGNORECASE\<close>, the class \<open>[/\\]\<close>, and \<open>\d\<close>, \<open>\w\<close>.\<close>

definition lit_ci :: "string \<Rightarrow> item list" where
  "lit_ci s = map (\<lambda>c. Once (\<lambda>x. lower_chr x = lower_chr c)) s"

definition path_sep :: "char \<Rightarrow> bool" where
  "path_sep x = (x = CHR ''/'' \<or> x = CHR 0x5C)"

text \<open>
  The class attributes \<open>DAILY_NOTE_PATTERNS\<close> and \<open>TEMPLATE_PATTERNS\<close>, in the order of the
  source. The configuration loader may append further patterns, which can be any regular
  expression, so a table entry is the test that \<open>re.search\<close> performs with that pattern.
\<close>

definition DAILY_NOTE_PATTERNS :: "(string \<Rightarrow> bool) list" where
  "DAILY_NOTE_PATTERNS =
     [re_search (lit_ci ''00-INBOX'' @ [Once path_sep] @ lit_ci ''daily-notes'' @ [Once path_sep]),
      re_search (lit_ci ''99-ARCHIVE'' @ [Once path_sep]
                 @ [Once is_digit, Once is_digit, Once is_digit, Once is_digit, Once path_sep]
                 @ [Once is_digit, Once is_digit] @ lit_ci ''-'' @ [Plus is_word, Once path_sep]),
      re_search (lit_ci ''daily-notes'' @ [Once path_sep]),
      re_search (lit_ci ''journal'' @ [Once path_sep])]"

definition TEMPLATE_PATTERNS :: "(string \<Rightarrow> bool) list" where
  "TEMPLATE_PATTERNS =
     [re_search (lit_ci ''04-TEMPLATES'' @ [Once path_sep]),
      re_search (lit_ci ''templates'' @ [Once path_sep]),
      re_search (lit_ci ''template'' @ [Once path_sep])]"

section \<open>Configuration and rule tables\<close>

text \<open>
  A path is the list of its components below the vault root. Of \<open>vault_path\<close> itself the
  engine uses only the last component, as the parent name of a file in the root. An include
  pattern is a glob; it is represented by the test that \<open>fnmatch\<close> performs with it on a
  relative path.
\<close>

type_synonym path = "string list"

record config =
  vault_name :: string
  dry_run :: bool
  backup :: bool
  verbose :: bool
  skip_existing :: bool
  title_case :: bool
  preserve_case :: bool
  exclude_dirs :: "string list"
  include_patterns :: "(string \<Rightarrow> bool) list"

record rule_tables =
  daily_note_patterns :: "(string \<Rightarrow> bool) list"
  template_patterns :: "(string \<Rightarrow> bool) list"
  preserve_terms :: "string set"

definition default_tables :: rule_tables where
  "default_tables = \<lparr>daily_note_patterns = DAILY_NOTE_PATTERNS,
     template_patterns = TEMPLATE_PATTERNS, preserve_terms = PRESERVE_TERMS\<rparr>"

text \<open>The defaults of the \<open>Config\<close> dataclass.\<close>

definition default_config :: "string \<Rightarrow> config" where
  "default_config v = \<lparr>vault_name = v, dry_run = False, backup = False, verbose = False,
     skip_existing = True, title_case = False, preserve_case = False, exclude_dirs = [],
     include_patterns = []\<rparr>"

section \<open>Heading Rule Engine\<close>

text \<open>\<open>str.rfind('.')\<close>, with \<open>None\<close> for Python's \<open>-1\<close>.\<close>

fun rfind_dot :: "string \<Rightarrow> nat option" where
  "rfind_dot [] = None"
| "rfind_dot (c # cs) =
     (case rfind_dot cs of
        Some i \<Rightarrow> Some (Suc i)
      | None \<Rightarrow> (if c = CHR ''.'' then Some 0 else None))"

text \<open>\<open>PurePath.stem\<close>: the name up to its last dot, unless that dot is the first or the
  last character.\<close>

definition path_stem :: "string \<Rightarrow> string" where
  "path_stem name =
     (case rfind_dot name of
        None \<Rightarrow> name
      | Some i \<Rightarrow> (if 0 < i \<and> i + 1 < length name then take i name else name))"

text \<open>\<open>str(rel_path).replace('\\', '/')\<close>.\<close>

definition rel_string :: "path \<Rightarrow> string" where
  "rel_string p = replace_chr (CHR 0x5C) CHR ''/'' (join ''/'' p)"

text \<open>\<open>file_path.parent.name\<close>.\<close>

definition parent_name :: "config \<Rightarrow> path \<Rightarrow> string" where
  "parent_name cfg p = (if length p < 2 then vault_name cfg else last (butlast p))"

definition is_daily_note :: "rule_tables \<Rightarrow> config \<Rightarrow> string \<Rightarrow> bool" where
  "is_daily_note tb cfg rel_path =
     (if list_ex (\<lambda>pattern. pattern rel_path) (daily_note_patterns tb) then True
      else list_ex (\<lambda>pattern. pattern rel_path) (include_patterns cfg))"

definition is_template_file :: "rule_tables \<Rightarrow> string \<Rightarrow> string \<Rightarrow> bool" where
  "is_template_file tb rel_path filename =
     (if list_ex (\<lambda>pattern. pattern rel_path) (template_patterns tb) then True
      else str_contains (str_lower filename) ''template'')"

definition generate_heading_value :: "rule_tables \<Rightarrow> config \<Rightarrow> path \<Rightarrow> string" where
  "generate_heading_value tb cfg file_path =
     (let filename = path_stem (last file_path);
          rel_str = rel_string file_path
      in if is_daily_note tb cfg rel_str then ''Daily Note '' @ filename
         else if endswith filename ''-summary'' then
           (let project_name = take (length filename - 8) filename
            in (if title_case cfg then to_title_case (preserve_terms tb) project_name
                else project_name) @ '' - Summary'')
         else if is_template_file tb rel_str filename then ''Template: '' @ filename
         else if str_lower filename = ''index'' then
           (if title_case cfg then to_title_case (preserve_terms tb) (parent_name cfg file_path)
            else parent_name cfg file_path) @ '' - Index''
         else if str_upper filename = ''README'' then
           (if title_case cfg then to_title_case (preserve_terms tb) (parent_name cfg file_path)
            else parent_name cfg file_path) @ '' - README''
         else if title_case cfg \<and> \<not> preserve_case cfg then
           to_title_case (preserve_terms tb) filename
         else filename)"

section \<open>Vault Walker\<close>

text \<open>The test the walker applies to each file name of a directory it visits.\<close>

datatype file_class = Ignored | SkippedSpecial | Candidate

definition classify_file :: "string \<Rightarrow> file_class" where
  "classify_file file =
     (if endswith (str_lower file) ''.md'' then
        (if endswith file ''.canvas'' \<or> endswith file ''.excalidraw.md'' then SkippedSpecial
         else Candidate)
      else Ignored)"

text \<open>
  The vault is given by its files: the path of each below the root, and what reading it
  yields. A file that cannot be read as UTF-8 text is \<open>Unreadable\<close>.
\<close>

datatype fnode = Text string | Unreadable

type_synonym vault = "(path \<times> fnode) list"

text \<open>The statistics counter, with its four keys.\<close>

record stats =
  processed :: nat
  skipped_existing :: nat
  skipped_special :: nat
  errors :: nat

definition no_stats :: stats where
  "no_stats = \<lparr>processed = 0, skipped_existing = 0, skipped_special = 0, errors = 0\<rparr>"

text \<open>\<open>str(rel_path)\<close> of a directory below the root; the root itself is \<open>.\<close> and has no
  parts.\<close>

definition dir_string :: "path \<Rightarrow> string" where
  "dir_string rel = (if rel = [] then ''.'' else rel_string rel)"

definition should_exclude_directory :: "config \<Rightarrow> path \<Rightarrow> bool" where
  "should_exclude_directory cfg rel_path =
     (if ''.obsidian'' \<in> set rel_path then True
      else list_ex (\<lambda>exclude_dir. str_contains (dir_string rel_path) exclude_dir)
             (exclude_dirs cfg))"

text \<open>
  \<open>os.walk\<close> goes top-down. At an excluded directory the walker empties \<open>dirs\<close> and
  continues with the next directory, so nothing at or below it is scanned: the files of a
  directory are scanned when neither the directory nor any directory above it, the root
  included, is excluded.
\<close>

definition walk_reaches :: "config \<Rightarrow> path \<Rightarrow> bool" where
  "walk_reaches cfg d =
     list_all (\<lambda>k. \<not> should_exclude_directory cfg (take k d)) [0..<Suc (length d)]"

text \<open>The walker returns the sorted candidates and counts the special files it passes.\<close>

definition find_markdown_files :: "config \<Rightarrow> stats \<Rightarrow> vault \<Rightarrow> path list \<times> stats" where
  "find_markdown_files cfg st v =
     (let scanned = filter (\<lambda>p. walk_reaches cfg (butlast p)) (map fst v);
          special = filter (\<lambda>p. classify_file (last p) = SkippedSpecial) scanned;
          md_files = filter (\<lambda>p. classify_file (last p) = Candidate) scanned
      in (sort md_files, st\<lparr>skipped_special := skipped_special st + length special\<rparr>))"

section \<open>Metadata Codec\<close>

text \<open>
  \<open>str.splitlines(keepends=True)\<close>: a line ends after a line feed, vertical tab, form feed,
  carriage return, one of the separators 28..30 or next line (\<open>0x85\<close>); a carriage return
  followed by a line feed ends the line once.
\<close>

definition is_linebreak :: "char \<Rightarrow> bool" where
  "is_linebreak c =
     ((CHR 0x0A \<le> c \<and> c \<le> CHR 0x0D) \<or> (CHR 0x1C \<le> c \<and> c \<le> CHR 0x1E) \<or> c = CHR 0x85)"

fun splitlines :: "string \<Rightarrow> string list" where
  "splitlines [] = []"
| "splitlines [c] = [[c]]"
| "splitlines (c # d # cs) =
     (if c = CHR 0x0D \<and> d = CHR 0x0A then [c, d] # splitlines cs
      else if is_linebreak c then [c] # splitlines (d # cs)
      else (case splitlines (d # cs) of [] \<Rightarrow> [[c]] | l # ls \<Rightarrow> (c # l) # ls))"

text \<open>
  The values \<open>yaml.safe_load\<close> constructs: null, booleans, integers, strings, sequences and
  mappings in document order; \<open>YOther\<close> stands for any other scalar (a float, a date, binary
  data), given by its text and its truth value.
\<close>

datatype yval =
    YNull
  | YBool bool
  | YInt int
  | YStr string
  | YOther string bool
  | YSeq "yval list"
  | YMap "(yval \<times> yval) list"

text \<open>The exceptions that can occur while a file is processed, by class.\<close>

datatype exn = YAMLError | ValueError | TypeError | OSError | UnicodeDecodeError | OtherError

text \<open>
  The YAML library is not part of the program: the codec is stated for any loader and any
  dumper. A loader returns a value or raises; only \<open>YAMLError\<close> is caught by the parser.
\<close>

record yaml =
  safe_load :: "string \<Rightarrow> exn + yval"
  dump :: "yval \<Rightarrow> exn + string"

text \<open>Python's truth value of a loaded value, as \<open>or\<close> and \<open>and\<close> test it.\<close>

fun truthy :: "yval \<Rightarrow> bool" where
  "truthy YNull = False"
| "truthy (YBool b) = b"
| "truthy (YInt i) = (i \<noteq> 0)"
| "truthy (YStr s) = (s \<noteq> [])"
| "truthy (YOther s b) = b"
| "truthy (YSeq xs) = (xs \<noteq> [])"
| "truthy (YMap m) = (m \<noteq> [])"

text \<open>The lines after the first are scanned for the first one that is \<open>---\<close> once stripped;
  the result is the lines before it and the lines after it.\<close>

fun split_at_closing :: "string list \<Rightarrow> (string list \<times> string list) option" where
  "split_at_closing [] = None"
| "split_at_closing (l # ls) =
     (if strip l = ''---'' then Some ([], ls)
      else (case split_at_closing ls of
              None \<Rightarrow> None
            | Some (before, rest) \<Rightarrow> Some (l # before, rest)))"

definition has_opening :: "string \<Rightarrow> bool" where
  "has_opening content =
     (startswith content [CHR ''-'', CHR ''-'', CHR ''-'', CHR 0x0A]
      \<or> startswith content [CHR ''-'', CHR ''-'', CHR ''-'', CHR 0x0D, CHR 0x0A])"

text \<open>\<open>_parse_frontmatter\<close>: the metadata, if any, and the body. An exception of the loader
  other than \<open>YAMLError\<close> is not caught here.\<close>

definition parse_frontmatter :: "yaml \<Rightarrow> string \<Rightarrow> exn + (yval option \<times> string)" where
  "parse_frontmatter y content =
     (if strip content = [] then Inr (None, content)
      else if has_opening content then
        (case split_at_closing (tl (splitlines content)) of
           None \<Rightarrow> Inr (None, content)
         | Some (before, rest) \<Rightarrow>
             (case safe_load y (concat before) of
                Inr v \<Rightarrow> Inr (Some (if truthy v then v else YMap []), concat rest)
              | Inl YAMLError \<Rightarrow> Inr (None, content)
              | Inl e \<Rightarrow> Inl e))
      else Inr (None, content))"

text \<open>\<open>_reconstruct_content\<close>.\<close>

definition ensure_newline :: "string \<Rightarrow> string" where
  "ensure_newline s = (if endswith s [CHR 0x0A] then s else s @ [CHR 0x0A])"

definition delimiter_line :: string where
  "delimiter_line = [CHR ''-'', CHR ''-'', CHR ''-'', CHR 0x0A]"

definition reconstruct_content :: "yaml \<Rightarrow> yval \<Rightarrow> string \<Rightarrow> exn + string" where
  "reconstruct_content y frontmatter body =
     (case dump y frontmatter of
        Inl e \<Rightarrow> Inl e
      | Inr fm_yaml \<Rightarrow> Inr (delimiter_line @ ensure_newline fm_yaml @ delimiter_line @ body))"

text \<open>\<open>'heading' in frontmatter\<close>: a key of a mapping, an element of a sequence, a slice of
  a string; any other value raises \<open>TypeError\<close>.\<close>

fun contains_heading :: "yval \<Rightarrow> exn + bool" where
  "contains_heading (YMap m) = Inr (YStr ''heading'' \<in> set (map fst m))"
| "contains_heading (YSeq xs) = Inr (YStr ''heading'' \<in> set xs)"
| "contains_heading (YStr s) = Inr (str_contains s ''heading'')"
| "contains_heading v = Inl TypeError"

text \<open>Item assignment on a dictionary: an existing key keeps its place, a new key goes
  last.\<close>

fun dict_set :: "(yval \<times> yval) list \<Rightarrow> yval \<Rightarrow> yval \<Rightarrow> (yval \<times> yval) list" where
  "dict_set [] k v = [(k, v)]"
| "dict_set ((k', v') # m) k v = (if k' = k then (k, v) # m else (k', v') # dict_set m k v)"

text \<open>\<open>frontmatter['heading'] = heading_value\<close>: only a mapping takes a string key.\<close>

fun set_heading :: "yval \<Rightarrow> string \<Rightarrow> exn + yval" where
  "set_heading (YMap m) h = Inr (YMap (dict_set m (YStr ''heading'') (YStr h)))"
| "set_heading v h = Inl TypeError"

text \<open>No line of the text is \<open>---\<close> once stripped.\<close>

definition no_delimiter_line :: "string \<Rightarrow> bool" where
  "no_delimiter_line t = list_all (\<lambda>l. strip l \<noteq> ''---'') (splitlines t)"

text \<open>
  A sample of the YAML library, for concrete documents: what a YAML loader and a
  block-style dumper that keeps the key order (PyYAML's \<open>safe_load\<close>, and \<open>dump\<close> as the
  codec calls it) return on the texts and mappings listed. A loader skips spaces and line
  breaks between tokens but rejects a tab there, and it raises \<open>ValueError\<close>, not
  \<open>YAMLError\<close>, on a scalar that looks like a date and is none; the dumper writes a string
  with line breaks in single quotes over several lines, the continuation lines indented.
\<close>

definition sample_loads :: "(string \<times> (exn + yval)) list" where
  "sample_loads =
     [('''', Inr YNull),
      (''   \<newline>'', Inr YNull),
      ([CHR 0x09, CHR 0x0A], Inl YAMLError),
      (''d: 2024-13-45\<newline>'', Inl ValueError),
      (''title: Test\<newline>'', Inr (YMap [(YStr ''title'', YStr ''Test'')])),
      (''heading: note\<newline>'', Inr (YMap [(YStr ''heading'', YStr ''note'')])),
      (''title: Test\<newline>heading: note\<newline>'',
         Inr (YMap [(YStr ''title'', YStr ''Test''), (YStr ''heading'', YStr ''note'')])),
      (''- a\<newline>'', Inr (YSeq [YStr ''a''])),
      (''k: '' @ [CHR 0x22] @ ''a'' @ [CHR 0x5C] @ ''n---'' @ [CHR 0x5C] @ ''nb''
         @ [CHR 0x22, CHR 0x0A],
         Inr (YMap [(YStr ''k'', YStr ''a\<newline>---\<newline>b'')])),
      (''k: '' @ [CHR 0x27] @ ''a\<newline>\<newline>'', Inl YAMLError)]"

definition sample_dumps :: "(yval \<times> string) list" where
  "sample_dumps =
     [(YMap [(YStr ''heading'', YStr ''note'')], ''heading: note\<newline>''),
      (YMap [(YStr ''title'', YStr ''Test''), (YStr ''heading'', YStr ''note'')],
         ''title: Test\<newline>heading: note\<newline>''),
      (YMap [(YStr ''k'', YStr ''a\<newline>---\<newline>b''), (YStr ''heading'', YStr ''note'')],
         ''k: '' @ [CHR 0x27] @ ''a\<newline>\<newline>  ---\<newline>\<newline>  b'' @ [CHR 0x27]
         @ ''\<newline>heading: note\<newline>'')]"

definition yaml_sample :: yaml where
  "yaml_sample =
     \<lparr>safe_load = (\<lambda>t. case map_of sample_loads t of Some r \<Rightarrow> r | None \<Rightarrow> Inl YAMLError),
      dump = (\<lambda>v. case map_of sample_dumps v of Some t \<Rightarrow> Inr t | None \<Rightarrow> Inl OtherError)\<rparr>"

text \<open>Sample documents: a block that holds only a tab, a block with a date of month 13,
  and a block whose one value is a string with a line \<open>---\<close> in it, written with escapes on
  one line.\<close>

definition tab_block_document :: string where
  "tab_block_document = ''---\<newline>'' @ [CHR 0x09] @ ''\<newline>---\<newline>body''"

definition bad_date_document :: string where
  "bad_date_document = ''---\<newline>d: 2024-13-45\<newline>---\<newline>body''"

definition multiline_value_document :: string where
  "multiline_value_document =
     ''---\<newline>k: '' @ [CHR 0x22] @ ''a'' @ [CHR 0x5C] @ ''n---'' @ [CHR 0x5C] @ ''nb''
     @ [CHR 0x22] @ ''\<newline>---\<newline>body''"

definition multiline_value_rewritten :: string where
  "multiline_value_rewritten =
     ''---\<newline>k: '' @ [CHR 0x27] @ ''a\<newline>\<newline>  ---\<newline>\<newline>  b'' @ [CHR 0x27]
     @ ''\<newline>heading: note\<newline>---\<newline>body''"

section \<open>File Processor\<close>

text \<open>
  The world the processor acts on: the files of the vault, and the paths that refuse a
  write. \<open>read_text\<close>, \<open>write_text\<close> and \<open>shutil.copy2\<close> raise where the world says so.
\<close>

record world =
  files :: vault
  locked :: "path list"

fun put_file :: "vault \<Rightarrow> path \<Rightarrow> fnode \<Rightarrow> vault" where
  "put_file [] p n = [(p, n)]"
| "put_file ((q, m) # v) p n = (if q = p then (p, n) # v else (q, m) # put_file v p n)"

definition read_text :: "world \<Rightarrow> path \<Rightarrow> exn + string" where
  "read_text w p =
     (case map_of (files w) p of
        None \<Rightarrow> Inl OSError
      | Some Unreadable \<Rightarrow> Inl UnicodeDecodeError
      | Some (Text s) \<Rightarrow> Inr s)"

definition write_text :: "world \<Rightarrow> path \<Rightarrow> string \<Rightarrow> exn + world" where
  "write_text w p s =
     (if p \<in> set (locked w) then Inl OSError
      else Inr (w\<lparr>files := put_file (files w) p (Text s)\<rparr>))"

definition copy2 :: "world \<Rightarrow> path \<Rightarrow> path \<Rightarrow> exn + world" where
  "copy2 w src dst =
     (case map_of (files w) src of
        None \<Rightarrow> Inl OSError
      | Some n \<Rightarrow>
          (if dst \<in> set (locked w) then Inl OSError
           else Inr (w\<lparr>files := put_file (files w) dst n\<rparr>)))"

text \<open>\<open>file_path.with_suffix(file_path.suffix + '.bak')\<close>: the name with \<open>.bak\<close> appended.\<close>

definition backup_path :: "path \<Rightarrow> path" where
  "backup_path p = butlast p @ [last p @ ''.bak'']"

datatype outcome = Processed | SkippedExisting

text \<open>The test \<open>frontmatter and 'heading' in frontmatter and self.config.skip_existing\<close>,
  evaluated left to right.\<close>

definition already_has_heading :: "config \<Rightarrow> yval option \<Rightarrow> exn + bool" where
  "already_has_heading cfg frontmatter =
     (case frontmatter of
        None \<Rightarrow> Inr False
      | Some v \<Rightarrow>
          (if \<not> truthy v then Inr False
           else (case contains_heading v of
                   Inl e \<Rightarrow> Inl e
                 | Inr False \<Rightarrow> Inr False
                 | Inr True \<Rightarrow> Inr (skip_existing cfg))))"

text \<open>
  The computation between reading and writing, first half: parse, test for an existing
  heading, generate the heading and set it. The result is \<open>None\<close> for a file to be skipped,
  else the updated metadata and the body.
\<close>

definition updated_frontmatter ::
  "yaml \<Rightarrow> rule_tables \<Rightarrow> config \<Rightarrow> path \<Rightarrow> string \<Rightarrow> exn + (yval \<times> string) option" where
  "updated_frontmatter y tb cfg file_path content =
     (case parse_frontmatter y content of
        Inl e \<Rightarrow> Inl e
      | Inr (frontmatter, body) \<Rightarrow>
          (case already_has_heading cfg frontmatter of
             Inl e \<Rightarrow> Inl e
           | Inr True \<Rightarrow> Inr None
           | Inr False \<Rightarrow>
               (let heading_value = generate_heading_value tb cfg file_path;
                    fm = (case frontmatter of None \<Rightarrow> YMap [] | Some v \<Rightarrow> v)
                in (case set_heading fm heading_value of
                      Inl e \<Rightarrow> Inl e
                    | Inr fm' \<Rightarrow> Inr (Some (fm', body))))))"

text \<open>Second half: the new content of a file to be rewritten.\<close>

definition compute_update ::
  "yaml \<Rightarrow> rule_tables \<Rightarrow> config \<Rightarrow> path \<Rightarrow> string \<Rightarrow> exn + string option" where
  "compute_update y tb cfg file_path content =
     (case updated_frontmatter y tb cfg file_path content of
        Inl e \<Rightarrow> Inl e
      | Inr None \<Rightarrow> Inr None
      | Inr (Some (fm', body)) \<Rightarrow>
          (case reconstruct_content y fm' body of
             Inl e \<Rightarrow> Inl e
           | Inr new_content \<Rightarrow> Inr (Some new_content)))"

text \<open>The body of the \<open>try\<close> block of \<open>_process_file\<close>: the world it leaves and either the
  exception raised or the outcome reached.\<close>

definition process_file_try ::
  "yaml \<Rightarrow> rule_tables \<Rightarrow> config \<Rightarrow> world \<Rightarrow> path \<Rightarrow> world \<times> (exn + outcome)" where
  "process_file_try y tb cfg w file_path =
     (case read_text w file_path of
        Inl e \<Rightarrow> (w, Inl e)
      | Inr content \<Rightarrow>
          (case compute_update y tb cfg file_path content of
             Inl e \<Rightarrow> (w, Inl e)
           | Inr None \<Rightarrow> (w, Inr SkippedExisting)
           | Inr (Some new_content) \<Rightarrow>
               (if dry_run cfg then (w, Inr Processed)
                else (case (if backup cfg then copy2 w file_path (backup_path file_path)
                            else Inr w) of
                        Inl e \<Rightarrow> (w, Inl e)
                      | Inr w1 \<Rightarrow>
                          (case write_text w1 file_path new_content of
                             Inl e \<Rightarrow> (w1, Inl e)
                           | Inr w2 \<Rightarrow> (w2, Inr Processed))))))"

text \<open>
  A file settles in a run when processing it raises nothing and the processor reads back
  what it writes: the file is read; its metadata is found to have a heading, or is updated
  and dumped; and if the file is rewritten, the paths written to accept the write and the
  parser reads the metadata written, and the body, back from the new content.
\<close>

definition file_settles :: "yaml \<Rightarrow> rule_tables \<Rightarrow> config \<Rightarrow> world \<Rightarrow> path \<Rightarrow> bool" where
  "file_settles y tb cfg w file_path =
     (case read_text w file_path of
        Inl e \<Rightarrow> False
      | Inr content \<Rightarrow>
          (case updated_frontmatter y tb cfg file_path content of
             Inl e \<Rightarrow> False
           | Inr None \<Rightarrow> True
           | Inr (Some (fm', body)) \<Rightarrow>
               (case reconstruct_content y fm' body of
                  Inl e \<Rightarrow> False
                | Inr new_content \<Rightarrow>
                    parse_frontmatter y new_content = Inr (Some fm', body)
                    \<and> file_path \<notin> set (locked w)
                    \<and> (backup cfg \<longrightarrow> backup_path file_path \<notin> set (locked w)))))"

text \<open>The processor skips the file as the world stands: it reads it and finds a heading.\<close>

definition skips_file :: "yaml \<Rightarrow> rule_tables \<Rightarrow> config \<Rightarrow> world \<Rightarrow> path \<Rightarrow> bool" where
  "skips_file y tb cfg w file_path =
     (case read_text w file_path of
        Inl e \<Rightarrow> False
      | Inr content \<Rightarrow> compute_update y tb cfg file_path content = Inr None)"

text \<open>The three ways the computation on a file ends before anything is written. The parser
  finds a heading in the file: the file is read and its metadata is a value that counts as
  true and holds \<open>heading\<close>.\<close>

definition has_heading :: "yaml \<Rightarrow> world \<Rightarrow> path \<Rightarrow> bool" where
  "has_heading y w file_path =
     (case read_text w file_path of
        Inl e \<Rightarrow> False
      | Inr content \<Rightarrow>
          (case parse_frontmatter y content of
             Inl e \<Rightarrow> False
           | Inr (frontmatter, body) \<Rightarrow>
               (case frontmatter of
                  None \<Rightarrow> False
                | Some v \<Rightarrow> (if truthy v then contains_heading v = Inr True else False))))"

text \<open>A new content is computed for the file.\<close>

definition computes_content :: "yaml \<Rightarrow> rule_tables \<Rightarrow> config \<Rightarrow> world \<Rightarrow> path \<Rightarrow> bool" where
  "computes_content y tb cfg w file_path =
     (case read_text w file_path of
        Inl e \<Rightarrow> False
      | Inr content \<Rightarrow>
          (case compute_update y tb cfg file_path content of
             Inl e \<Rightarrow> False
           | Inr None \<Rightarrow> False
           | Inr (Some new_content) \<Rightarrow> True))"

text \<open>Reading the file or the computation on its content raises.\<close>

definition computation_raises :: "yaml \<Rightarrow> rule_tables \<Rightarrow> config \<Rightarrow> world \<Rightarrow> path \<Rightarrow> bool" where
  "computation_raises y tb cfg w file_path =
     (case read_text w file_path of
        Inl e \<Rightarrow> True
      | Inr content \<Rightarrow>
          (case compute_update y tb cfg file_path content of
             Inl e \<Rightarrow> True
           | Inr u \<Rightarrow> False))"

text \<open>The counter update of each exit of \<open>_process_file\<close>; the \<open>except\<close> clause catches
  every exception.\<close>

definition count_result :: "stats \<Rightarrow> exn + outcome \<Rightarrow> stats" where
  "count_result st r =
     (case r of
        Inl e \<Rightarrow> st\<lparr>errors := errors st + 1\<rparr>
      | Inr SkippedExisting \<Rightarrow> st\<lparr>skipped_existing := skipped_existing st + 1\<rparr>
      | Inr Processed \<Rightarrow> st\<lparr>processed := processed st + 1\<rparr>)"

definition process_file ::
  "yaml \<Rightarrow> rule_tables \<Rightarrow> config \<Rightarrow> world \<times> stats \<Rightarrow> path \<Rightarrow> world \<times> stats" where
  "process_file y tb cfg ws file_path =
     (let (w', r) = process_file_try y tb cfg (fst ws) file_path
      in (w', count_result (snd ws) r))"

text \<open>The loop of \<open>process_vault\<close> over the files found.\<close>

fun process_files ::
  "yaml \<Rightarrow> rule_tables \<Rightarrow> config \<Rightarrow> world \<times> stats \<Rightarrow> path list \<Rightarrow> world \<times> stats" where
  "process_files y tb cfg ws [] = ws"
| "process_files y tb cfg ws (p # ps) = process_files y tb cfg (process_file y tb cfg ws p) ps"

text \<open>The summary lists the four counters and their sum.\<close>

definition print_summary :: "stats \<Rightarrow> nat list" where
  "print_summary st =
     [processed st, skipped_existing st, skipped_special st, errors st,
      processed st + skipped_existing st + skipped_special st + errors st]"

text \<open>\<open>process_vault\<close>: the world and the counter it leaves, and the summary it prints;
  without markdown files it returns before the summary.\<close>

definition process_vault ::
  "yaml \<Rightarrow> rule_tables \<Rightarrow> config \<Rightarrow> world \<times> stats \<Rightarrow> (world \<times> stats) \<times> nat list option" where
  "process_vault y tb cfg ws =
     (let (md_files, st1) = find_markdown_files cfg (snd ws) (files (fst ws))
      in if md_files = [] then ((fst ws, st1), None)
         else (let ws' = process_files y tb cfg (fst ws, st1) md_files
               in (ws', Some (print_summary (snd ws')))))"

section \<open>Sample vaults\<close>

definition dry_config :: config where
  "dry_config = (default_config ''Vault'')\<lparr>dry_run := True\<rparr>"

text \<open>A vault whose one file already has a heading.\<close>

definition headed_world :: world where
  "headed_world =
     \<lparr>files = [([''done.md''], Text ''---\<newline>heading: note\<newline>---\<newline>hello\<newline>'')],
      locked = []\<rparr>"

text \<open>A vault with a file that cannot be decoded, a file with a heading and a plain note.\<close>

definition three_world :: world where
  "three_world =
     \<lparr>files = [([''bad.md''], Unreadable),
               ([''done.md''], Text ''---\<newline>heading: note\<newline>---\<newline>hello\<newline>''),
               ([''note.md''], Text ''hello\<newline>'')],
      locked = []\<rparr>"

text \<open>A vault with a file that cannot be decoded and a plain note.\<close>

definition mixed_world :: world where
  "mixed_world =
     \<lparr>files = [([''bad.md''], Unreadable), ([''note.md''], Text ''hello\<newline>'')], locked = []\<rparr>"

definition mixed_world_after :: world where
  "mixed_world_after =
     \<lparr>files = [([''bad.md''], Unreadable),
               ([''note.md''], Text ''---\<newline>heading: note\<newline>---\<newline>hello\<newline>'')],
      locked = []\<rparr>"

text \<open>A vault with the document whose value holds a line \<open>---\<close>, before the first run,
  after it, and after the second.\<close>

definition multiline_world :: world where
  "multiline_world = \<lparr>files = [([''note.md''], Text multiline_value_document)], locked = []\<rparr>"

definition multiline_world_after :: world where
  "multiline_world_after =
     \<lparr>files = [([''note.md''], Text multiline_value_rewritten)], locked = []\<rparr>"

definition multiline_world_after2 :: world where
  "multiline_world_after2 =
     \<lparr>files = [([''note.md''],
                 Text (''---\<newline>heading: note\<newline>---\<newline>'' @ multiline_value_rewritten))],
      locked = []\<rparr>"

text \<open>A vault with a plain note and a note with metadata, both without a heading.\<close>

definition plain_world :: world where
  "plain_world =
     \<lparr>files = [([''note.md''], Text ''hello\<newline>''),
               ([''a'', ''note.md''], Text ''---\<newline>title: Test\<newline>---\<newline>body\<newline>'')],
      locked = []\<rparr>"

text \<open>The same vault after a run that makes backups.\<close>

definition backup_config :: config where
  "backup_config = (default_config ''Vault'')\<lparr>backup := True\<rparr>"

definition plain_world_after :: world where
  "plain_world_after =
     \<lparr>files = [([''note.md''], Text ''---\<newline>heading: note\<newline>---\<newline>hello\<newline>''),
               ([''a'', ''note.md''],
                  Text ''---\<newline>title: Test\<newline>heading: note\<newline>---\<newline>body\<newline>''),
               ([''a'', ''note.md.bak''], Text ''---\<newline>title: Test\<newline>---\<newline>body\<newline>''),
               ([''note.md.bak''], Text ''hello\<newline>'')],
      locked = []\<rparr>"

section \<open>Properties of the Title Case Transformer\<close>

lemma title_word_upper_stored:
  "str_upper w \<in> terms \<Longrightarrow> title_word terms w = str_upper w"
  by (simp add: title_word_def)

text \<open>
  Claim C4. The transformer replaces hyphens and underscores by spaces before it looks for
  the two-digit prefix, so the prefix pattern, which asks for a hyphen, no longer finds one:
  \<open>my-note\<close> becomes \<open>My Note\<close> and \<open>api-documentation\<close> becomes \<open>API Documentation\<close>, but
  \<open>01-projects\<close> becomes \<open>01 Projects\<close> and keeps its prefix.
\<close>

theorem to_title_case_examples:
  "to_title_case PRESERVE_TERMS ''my-note'' = ''My Note''
   \<and> to_title_case PRESERVE_TERMS ''api-documentation'' = ''API Documentation''
   \<and> to_title_case PRESERVE_TERMS ''01-projects'' = ''01 Projects''"
  by code_simp

text \<open>
  Claim C5. A term stored in mixed case is found only by its exact spelling: the upper-case
  form of \<open>ios\<close> is \<open>IOS\<close>, which is not in the set, and neither is \<open>ios\<close> itself, so the word
  is capitalised like any other. Only the stored spelling \<open>iOS\<close> comes out as \<open>iOS\<close>.
\<close>

theorem to_title_case_mixed_case_term:
  "to_title_case PRESERVE_TERMS ''ios'' = ''Ios''
   \<and> to_title_case PRESERVE_TERMS ''IOS'' = ''Ios''
   \<and> to_title_case PRESERVE_TERMS ''Ios'' = ''Ios''
   \<and> to_title_case PRESERVE_TERMS ''iOS'' = ''iOS''
   \<and> to_title_case PRESERVE_TERMS ''api'' = ''API''"
  by code_simp

section \<open>Properties of the Heading Rule Engine\<close>

lemma endswith_append: "endswith s p \<longleftrightarrow> (\<exists>xs. s = xs @ p)"
proof
  assume "endswith s p"
  then have "s = take (length s - length p) s @ p"
    by (metis append_take_drop_id endswith_def)
  then show "\<exists>xs. s = xs @ p" ..
next
  assume "\<exists>xs. s = xs @ p"
  then show "endswith s p" by (auto simp: endswith_def)
qed

lemma heading_examples:
  "generate_heading_value default_tables (default_config ''Vault'')
     [''00-INBOX'', ''daily-notes'', ''2024-01-15.md''] = ''Daily Note 2024-01-15''"
  "generate_heading_value default_tables (default_config ''Vault'')
     [''notes'', ''meeting-template.md''] = ''Template: meeting-template''"
  "generate_heading_value default_tables (default_config ''Vault'')
     [''readme.md''] = ''Vault - README''"
  by code_simp+

text \<open>
  Claim C6. With both case flags set, the summary rule and the index rule still title-case
  the project name and the parent directory name: they test the title-case flag alone. Only
  the default rule leaves the stem as it is.
\<close>

theorem preserve_case_not_honoured:
  "generate_heading_value default_tables
     ((default_config ''Vault'')\<lparr>title_case := True, preserve_case := True\<rparr>)
     [''my-project-summary.md''] = ''My Project - Summary''
   \<and> generate_heading_value default_tables
     ((default_config ''Vault'')\<lparr>title_case := True, preserve_case := True\<rparr>)
     [''my-folder'', ''index.md''] = ''My Folder - Index''
   \<and> generate_heading_value default_tables
     ((default_config ''Vault'')\<lparr>title_case := True, preserve_case := True\<rparr>)
     [''my-note.md''] = ''my-note''"
  by code_simp

text \<open>
  Claim C7, as stated, fails: the daily-note rule comes before the summary rule, so
  \<open>index-summary.md\<close> in a journal folder gets a daily-note heading.
\<close>

theorem index_summary_in_journal:
  "path_stem (last [''journal'', ''index-summary.md'']) = ''index-summary''
   \<and> \<not> title_case (default_config ''Vault'')
   \<and> generate_heading_value default_tables (default_config ''Vault'')
        [''journal'', ''index-summary.md''] = ''Daily Note index-summary''
   \<and> generate_heading_value default_tables (default_config ''Vault'')
        [''journal'', ''index-summary.md''] \<noteq> ''index - Summary''"
  by code_simp

text \<open>
  Claim C7, amended. For every file whose stem is \<open>index-summary\<close> and whose relative path
  is not a daily note, with title-case disabled, the heading is \<open>index - Summary\<close>: the
  summary rule is reached before the template, index and readme rules.
\<close>

theorem index_summary_heading:
  assumes "path_stem (last p) = ''index-summary''"
    and "\<not> title_case cfg"
    and "\<not> is_daily_note tb cfg (rel_string p)"
  shows "generate_heading_value tb cfg p = ''index - Summary''"
proof -
  have "endswith ''index-summary'' ''-summary''"
    by (simp add: endswith_def)
  then show ?thesis
    using assms by (simp add: generate_heading_value_def Let_def)
qed

theorem index_summary_heading_witness:
  "path_stem (last [''index-summary.md'']) = ''index-summary''
   \<and> \<not> title_case (default_config ''Vault'')
   \<and> \<not> is_daily_note default_tables (default_config ''Vault'') (rel_string [''index-summary.md''])
   \<and> generate_heading_value default_tables (default_config ''Vault'') [''index-summary.md'']
       = ''index - Summary''"
proof -
  have h1: "path_stem (last [''index-summary.md'']) = ''index-summary''"
    by code_simp
  have h2: "\<not> title_case (default_config ''Vault'')"
    by (simp add: default_config_def)
  have h3: "\<not> is_daily_note default_tables (default_config ''Vault'')
               (rel_string [''index-summary.md''])"
    by code_simp
  from index_summary_heading [OF h1 h2 h3] h1 h2 h3 show ?thesis
    by blast
qed

section \<open>Properties of the Vault Walker\<close>

lemma str_lower_append: "str_lower (xs @ ys) = str_lower xs @ str_lower ys"
  by (simp add: str_lower_def)

lemma md_excludes_canvas:
  assumes "endswith (str_lower f) ''.md''"
  shows "\<not> endswith f ''.canvas''"
proof
  assume "endswith f ''.canvas''"
  then obtain xs where f: "f = xs @ ''.canvas''"
    by (auto simp: endswith_append)
  have "str_lower ''.canvas'' = ''.canvas''"
    by code_simp
  then have "str_lower f = str_lower xs @ ''.canvas''"
    by (simp add: f str_lower_append)
  with assms show False
    by (simp add: endswith_def)
qed

lemma classify_file_special_iff:
  "classify_file f = SkippedSpecial
     \<longleftrightarrow> endswith (str_lower f) ''.md'' \<and> endswith f ''.excalidraw.md''"
  using md_excludes_canvas [of f] by (auto simp: classify_file_def)

text \<open>
  Claim C10. The walker counts a file of a scanned directory as \<open>skipped_special\<close> exactly
  when its name ends with \<open>.md\<close> in any casing and with \<open>.excalidraw.md\<close> in this casing; a
  name in upper case is a candidate; and no name passes the \<open>.md\<close> test and ends with
  \<open>.canvas\<close>.
\<close>

theorem walker_skipped_special:
  "(classify_file f = SkippedSpecial
      \<longleftrightarrow> endswith (str_lower f) ''.md'' \<and> endswith f ''.excalidraw.md'')
   \<and> skipped_special (snd (find_markdown_files cfg st v)) =
       skipped_special st
       + length (filter (\<lambda>p. walk_reaches cfg (butlast p) \<and> endswith (str_lower (last p)) ''.md''
                              \<and> endswith (last p) ''.excalidraw.md'') (map fst v))
   \<and> find_markdown_files (default_config ''Vault'') no_stats
        [([''DIAGRAM.EXCALIDRAW.MD''], Text ''x'')] = ([[''DIAGRAM.EXCALIDRAW.MD'']], no_stats)
   \<and> (endswith (str_lower f) ''.md'' \<longrightarrow> \<not> endswith f ''.canvas'')"
proof -
  have a: "skipped_special (snd (find_markdown_files cfg st v)) =
       skipped_special st
       + length (filter (\<lambda>p. walk_reaches cfg (butlast p) \<and> endswith (str_lower (last p)) ''.md''
                              \<and> endswith (last p) ''.excalidraw.md'') (map fst v))"
    by (simp add: find_markdown_files_def Let_def classify_file_special_iff)
  have b: "find_markdown_files (default_config ''Vault'') no_stats
        [([''DIAGRAM.EXCALIDRAW.MD''], Text ''x'')] = ([[''DIAGRAM.EXCALIDRAW.MD'']], no_stats)"
    by code_simp
  show ?thesis
    using a b classify_file_special_iff [of f] md_excludes_canvas [of f] by blast
qed

theorem walker_skipped_special_witness:
  "classify_file ''diagram.excalidraw.md'' = SkippedSpecial
   \<and> endswith (str_lower ''diagram.excalidraw.md'') ''.md''
   \<and> endswith ''diagram.excalidraw.md'' ''.excalidraw.md''
   \<and> \<not> endswith ''diagram.excalidraw.md'' ''.canvas''"
proof -
  have h: "endswith (str_lower ''diagram.excalidraw.md'') ''.md''
           \<and> endswith ''diagram.excalidraw.md'' ''.excalidraw.md''"
    by code_simp
  with walker_skipped_special [of "''diagram.excalidraw.md''"] show ?thesis
    by blast
qed

section \<open>Properties of the Metadata Codec\<close>

lemma dropWhile_all_iff:
  "(\<forall>c\<in>set (dropWhile P s). P c) \<longleftrightarrow> dropWhile P s = []"
proof
  assume a: "\<forall>c\<in>set (dropWhile P s). P c"
  show "dropWhile P s = []"
  proof (rule ccontr)
    assume n: "dropWhile P s \<noteq> []"
    then have "\<not> P (hd (dropWhile P s))" by (rule hd_dropWhile)
    moreover have "hd (dropWhile P s) \<in> set (dropWhile P s)" using n by (rule hd_in_set)
    ultimately show False using a by blast
  qed
next
  assume "dropWhile P s = []"
  then show "\<forall>c\<in>set (dropWhile P s). P c" by (auto dest: set_dropWhileD)
qed

lemma strip_Nil_iff: "strip s = [] \<longleftrightarrow> (\<forall>c\<in>set s. is_space c)"
  by (simp add: strip_def dropWhile_eq_Nil_conv dropWhile_all_iff)

lemma linebreak_LF: "is_linebreak (CHR 0x0A)"
  by (simp add: is_linebreak_def less_eq_char_def)

lemma splitlines_LF: "splitlines (CHR 0x0A # b) = [CHR 0x0A] # splitlines b"
  by (cases b) (simp_all add: linebreak_LF)

lemma split_at_closing_append:
  assumes "\<forall>l\<in>set xs. strip l \<noteq> ''---''" and "strip dl = ''---''"
  shows "split_at_closing (xs @ dl # ys) = Some (xs, ys)"
  using assms by (induction xs) simp_all


lemma concat_splitlines: "concat (splitlines s) = s"
proof (induction s rule: splitlines.induct)
  case 1
  show ?case by simp
next
  case (2 c)
  show ?case by simp
next
  case (3 c d cs)
  show ?case
  proof (cases "c = CHR 0x0D \<and> d = CHR 0x0A")
    case True
    then show ?thesis using 3(1) by simp
  next
    case ncr: False
    show ?thesis
    proof (cases "is_linebreak c")
      case True
      with ncr 3(2) have "concat (splitlines (d # cs)) = d # cs" by blast
      with ncr True show ?thesis by auto
    next
      case nl: False
      with ncr 3(3) have ih: "concat (splitlines (d # cs)) = d # cs" by blast
      show ?thesis
      proof (cases "splitlines (d # cs)")
        case Nil
        with ih show ?thesis by simp
      next
        case (Cons l ls)
        with ih ncr nl show ?thesis by auto
      qed
    qed
  qed
qed


lemma splitlines_Cons_not_Nil: "splitlines (x # xs) \<noteq> []"
  by (cases xs) (simp_all split: list.split)

lemma splitlines_append:
  "splitlines (a @ CHR 0x0A # b) = splitlines (a @ [CHR 0x0A]) @ splitlines b"
proof (induction a rule: splitlines.induct)
  case 1
  show ?case by (simp add: splitlines_LF)
next
  case (2 c)
  show ?case by (simp add: splitlines_LF)
next
  case (3 c d cs)
  show ?case
  proof (cases "c = CHR 0x0D \<and> d = CHR 0x0A")
    case True
    with 3(1) show ?thesis by simp
  next
    case ncr: False
    show ?thesis
    proof (cases "is_linebreak c")
      case True
      with ncr 3(2)
      have "splitlines ((d # cs) @ CHR 0x0A # b) = splitlines ((d # cs) @ [CHR 0x0A]) @ splitlines b"
        by blast
      with ncr True show ?thesis by auto
    next
      case nl: False
      with ncr 3(3)
      have ih: "splitlines ((d # cs) @ CHR 0x0A # b) = splitlines ((d # cs) @ [CHR 0x0A]) @ splitlines b"
        by blast
      obtain l ls where sp: "splitlines (d # cs @ [CHR 0x0A]) = l # ls"
        using splitlines_Cons_not_Nil [of d "cs @ [CHR 0x0A]"] by (cases "splitlines (d # cs @ [CHR 0x0A])") auto
      from ih sp have "splitlines (d # cs @ CHR 0x0A # b) = (l # ls) @ splitlines b"
        by simp
      with sp ncr nl show ?thesis by auto
    qed
  qed
qed

lemma splitlines_delimiter: "splitlines delimiter_line = [delimiter_line]"
  by code_simp

lemma strip_delimiter: "strip delimiter_line = ''---''"
  by code_simp

lemma hyphen_not_space: "\<not> is_space CHR ''-''"
  by code_simp

lemma has_opening_not_blank:
  assumes "has_opening content"
  shows "strip content \<noteq> []"
proof -
  from assms have "take 1 content = ''-''"
    by (cases content) (auto simp: has_opening_def startswith_def)
  then have "CHR ''-'' \<in> set content"
    by (cases content) auto
  with hyphen_not_space show ?thesis
    by (auto simp: strip_Nil_iff)
qed

lemma has_opening_delimiter: "has_opening (delimiter_line @ rest)"
  by (simp add: has_opening_def startswith_def delimiter_line_def)

lemma splitlines_reconstructed:
  assumes "endswith t [CHR 0x0A]"
  shows "splitlines (delimiter_line @ t @ delimiter_line @ body)
           = delimiter_line # splitlines t @ delimiter_line # splitlines body"
proof -
  from assms obtain t0 where t: "t = t0 @ [CHR 0x0A]"
    by (auto simp: endswith_append)
  have d: "delimiter_line = ''---'' @ [CHR 0x0A]"
    by (simp add: delimiter_line_def)
  have "splitlines (delimiter_line @ t @ delimiter_line @ body)
          = splitlines (''---'' @ CHR 0x0A # (t0 @ CHR 0x0A # (''---'' @ CHR 0x0A # body)))"
    by (simp add: t d)
  also have "\<dots> = splitlines (''---'' @ [CHR 0x0A])
                     @ splitlines (t0 @ CHR 0x0A # (''---'' @ CHR 0x0A # body))"
    by (rule splitlines_append)
  also have "splitlines (t0 @ CHR 0x0A # (''---'' @ CHR 0x0A # body))
               = splitlines (t0 @ [CHR 0x0A]) @ splitlines (''---'' @ CHR 0x0A # body)"
    by (rule splitlines_append)
  also have "splitlines (''---'' @ CHR 0x0A # body) = splitlines (''---'' @ [CHR 0x0A]) @ splitlines body"
    by (rule splitlines_append)
  finally show ?thesis
    using splitlines_delimiter by (simp add: t d)
qed

lemma parse_reconstructed:
  assumes clean: "\<forall>l\<in>set (splitlines t). strip l \<noteq> ''---''"
    and nl: "endswith t [CHR 0x0A]"
    and ld: "safe_load y t = Inr v"
    and tr: "truthy v"
  shows "parse_frontmatter y (delimiter_line @ t @ delimiter_line @ body) = Inr (Some v, body)"
proof -
  let ?c = "delimiter_line @ t @ delimiter_line @ body"
  have op: "has_opening ?c" by (rule has_opening_delimiter)
  then have nb: "strip ?c \<noteq> []" by (rule has_opening_not_blank)
  have "tl (splitlines ?c) = splitlines t @ delimiter_line # splitlines body"
    by (simp add: splitlines_reconstructed [OF nl])
  then have "split_at_closing (tl (splitlines ?c)) = Some (splitlines t, splitlines body)"
    using split_at_closing_append [OF clean strip_delimiter] by simp
  then show ?thesis
    using op nb ld tr by (simp add: parse_frontmatter_def concat_splitlines)
qed

lemma parse_None_body:
  assumes "parse_frontmatter y content = Inr (None, b)"
  shows "b = content"
  using assms
  by (auto simp: parse_frontmatter_def split: if_splits option.splits sum.splits exn.splits)


text \<open>The whitespace of the upper half of the character range counts: a closing line may
  end in a no-break space, and next line ends a line.\<close>

lemma upper_half_whitespace:
  "strip (''---'' @ [CHR 0xA0, CHR 0x0A]) = ''---''
   \<and> strip (''  ---'' @ [CHR 0x85]) = ''---''
   \<and> splitlines (''a'' @ [CHR 0x85] @ ''b'') = [''a'' @ [CHR 0x85], ''b'']
   \<and> split_at_closing (tl (splitlines (''---\<newline>k: v\<newline>---'' @ [CHR 0xA0] @ ''\<newline>body'')))
       = Some ([''k: v\<newline>''], [''body''])"
  by code_simp

text \<open>
  Claim C2, as stated, fails twice. A block holding only a tab is whitespace, the loader
  raises \<open>YAMLError\<close> on it, and the parser answers "no metadata" with the whole text, not
  an empty mapping. And a block the loader rejects with another exception is not answered
  at all: the parser catches \<open>YAMLError\<close> only, and the exception leaves it.
\<close>

theorem tab_block_is_no_metadata:
  "list_all is_space [CHR 0x09, CHR 0x0A]
   \<and> split_at_closing (tl (splitlines tab_block_document)) = Some ([[CHR 0x09, CHR 0x0A]], [''body''])
   \<and> parse_frontmatter yaml_sample tab_block_document = Inr (None, tab_block_document)
   \<and> split_at_closing (tl (splitlines bad_date_document))
       = Some ([''d: 2024-13-45\<newline>''], [''body''])
   \<and> parse_frontmatter yaml_sample bad_date_document = Inl ValueError"
  by code_simp

text \<open>
  Claim C2, amended. For every text and every loader: without a closing delimiter line the
  parser returns "no metadata" and the whole text; so it does when the loader raises
  \<open>YAMLError\<close> on the enclosed block; any other exception the loader raises on the block
  of a text with the opening delimiter leaves the parser as it is; and when the loader reads
  that block as nothing (an empty document, or any value that counts as false) the parser
  returns the empty mapping and the text after the closing line.
\<close>

theorem parse_frontmatter_cases:
  "(split_at_closing (tl (splitlines content)) = None
      \<longrightarrow> parse_frontmatter y content = Inr (None, content))
   \<and> (split_at_closing (tl (splitlines content)) = Some (before, rest)
      \<longrightarrow> safe_load y (concat before) = Inl YAMLError
      \<longrightarrow> parse_frontmatter y content = Inr (None, content))
   \<and> (has_opening content
      \<longrightarrow> split_at_closing (tl (splitlines content)) = Some (before, rest)
      \<longrightarrow> safe_load y (concat before) = Inl e \<longrightarrow> e \<noteq> YAMLError
      \<longrightarrow> parse_frontmatter y content = Inl e)
   \<and> (has_opening content
      \<longrightarrow> split_at_closing (tl (splitlines content)) = Some (before, rest)
      \<longrightarrow> safe_load y (concat before) = Inr v \<longrightarrow> \<not> truthy v
      \<longrightarrow> parse_frontmatter y content = Inr (Some (YMap []), concat rest))"
proof (intro conjI impI)
  assume "split_at_closing (tl (splitlines content)) = None"
  then show "parse_frontmatter y content = Inr (None, content)"
    by (simp add: parse_frontmatter_def)
next
  assume "split_at_closing (tl (splitlines content)) = Some (before, rest)"
    and "safe_load y (concat before) = Inl YAMLError"
  then show "parse_frontmatter y content = Inr (None, content)"
    by (simp add: parse_frontmatter_def)
next
  assume op: "has_opening content"
    and "split_at_closing (tl (splitlines content)) = Some (before, rest)"
    and "safe_load y (concat before) = Inl e" and "e \<noteq> YAMLError"
  then show "parse_frontmatter y content = Inl e"
    using has_opening_not_blank [OF op] by (cases e) (simp_all add: parse_frontmatter_def)
next
  assume op: "has_opening content"
    and "split_at_closing (tl (splitlines content)) = Some (before, rest)"
    and "safe_load y (concat before) = Inr v" and "\<not> truthy v"
  then show "parse_frontmatter y content = Inr (Some (YMap []), concat rest)"
    using has_opening_not_blank [OF op] by (simp add: parse_frontmatter_def)
qed

theorem parse_frontmatter_cases_witness:
  "(split_at_closing (tl (splitlines ''---\<newline>title: Test\<newline>'')) = None
      \<and> parse_frontmatter yaml_sample ''---\<newline>title: Test\<newline>''
          = Inr (None, ''---\<newline>title: Test\<newline>''))
   \<and> (split_at_closing (tl (splitlines tab_block_document)) = Some ([[CHR 0x09, CHR 0x0A]], [''body''])
      \<and> safe_load yaml_sample (concat [[CHR 0x09, CHR 0x0A]]) = Inl YAMLError
      \<and> parse_frontmatter yaml_sample tab_block_document = Inr (None, tab_block_document))
   \<and> (has_opening bad_date_document
      \<and> split_at_closing (tl (splitlines bad_date_document))
          = Some ([''d: 2024-13-45\<newline>''], [''body''])
      \<and> safe_load yaml_sample (concat [''d: 2024-13-45\<newline>'']) = Inl ValueError
      \<and> ValueError \<noteq> YAMLError
      \<and> parse_frontmatter yaml_sample bad_date_document = Inl ValueError)
   \<and> (has_opening ''---\<newline>   \<newline>---\<newline>body''
      \<and> split_at_closing (tl (splitlines ''---\<newline>   \<newline>---\<newline>body''))
          = Some ([''   \<newline>''], [''body''])
      \<and> safe_load yaml_sample (concat [''   \<newline>'']) = Inr YNull \<and> \<not> truthy YNull
      \<and> parse_frontmatter yaml_sample ''---\<newline>   \<newline>---\<newline>body''
          = Inr (Some (YMap []), concat [''body'']))
   \<and> (has_opening ''---\<newline>---\<newline>body''
      \<and> split_at_closing (tl (splitlines ''---\<newline>---\<newline>body'')) = Some ([], [''body''])
      \<and> safe_load yaml_sample (concat []) = Inr YNull
      \<and> parse_frontmatter yaml_sample ''---\<newline>---\<newline>body''
          = Inr (Some (YMap []), concat [''body'']))"
proof -
  have a: "split_at_closing (tl (splitlines ''---\<newline>title: Test\<newline>'')) = None"
    by code_simp
  have b1: "split_at_closing (tl (splitlines tab_block_document))
              = Some ([[CHR 0x09, CHR 0x0A]], [''body''])"
    by code_simp
  have b2: "safe_load yaml_sample (concat [[CHR 0x09, CHR 0x0A]]) = Inl YAMLError"
    by code_simp
  have c1: "has_opening ''---\<newline>   \<newline>---\<newline>body''"
    by code_simp
  have c2: "split_at_closing (tl (splitlines ''---\<newline>   \<newline>---\<newline>body''))
              = Some ([''   \<newline>''], [''body''])"
    by code_simp
  have c3: "safe_load yaml_sample (concat [''   \<newline>'']) = Inr YNull"
    by code_simp
  have c4: "\<not> truthy YNull"
    by simp
  have e1: "has_opening ''---\<newline>---\<newline>body''"
    by code_simp
  have e2: "split_at_closing (tl (splitlines ''---\<newline>---\<newline>body'')) = Some ([], [''body''])"
    by code_simp
  have e3: "safe_load yaml_sample (concat []) = Inr YNull"
    by code_simp
  note t5 = parse_frontmatter_cases [where content = "''---\<newline>---\<newline>body''"
      and before = "[]" and rest = "[''body'']" and y = yaml_sample and v = YNull]
  from t5 e1 e2 e3 c4 have re: "parse_frontmatter yaml_sample ''---\<newline>---\<newline>body''
          = Inr (Some (YMap []), concat [''body''])"
    by blast
  have d1: "has_opening bad_date_document"
    by code_simp
  have d2: "split_at_closing (tl (splitlines bad_date_document))
              = Some ([''d: 2024-13-45\<newline>''], [''body''])"
    by code_simp
  have d3: "safe_load yaml_sample (concat [''d: 2024-13-45\<newline>'']) = Inl ValueError"
    by code_simp
  have d4: "ValueError \<noteq> YAMLError"
    by simp
  note t4 = parse_frontmatter_cases [where content = bad_date_document
      and before = "[''d: 2024-13-45\<newline>'']" and rest = "[''body'']" and y = yaml_sample
      and e = ValueError]
  from t4 d1 d2 d3 d4 have rd: "parse_frontmatter yaml_sample bad_date_document = Inl ValueError"
    by blast
  note t1 = parse_frontmatter_cases [where content = "''---\<newline>title: Test\<newline>''"
      and y = yaml_sample]
  note t2 = parse_frontmatter_cases [where content = tab_block_document
      and before = "[[CHR 0x09, CHR 0x0A]]" and rest = "[''body'']" and y = yaml_sample]
  note t3 = parse_frontmatter_cases [where content = "''---\<newline>   \<newline>---\<newline>body''"
      and before = "[''   \<newline>'']" and rest = "[''body'']" and y = yaml_sample and v = YNull]
  from t1 a have ra: "parse_frontmatter yaml_sample ''---\<newline>title: Test\<newline>''
          = Inr (None, ''---\<newline>title: Test\<newline>'')"
    by blast
  from t2 b1 b2 have rb: "parse_frontmatter yaml_sample tab_block_document
          = Inr (None, tab_block_document)"
    by blast
  from t3 c1 c2 c3 c4 have rc: "parse_frontmatter yaml_sample ''---\<newline>   \<newline>---\<newline>body''
          = Inr (Some (YMap []), concat [''body''])"
    by blast
  from a b1 b2 c1 c2 c3 c4 d1 d2 d3 d4 e1 e2 e3 ra rb rc rd re show ?thesis
    by blast
qed

lemma dict_set_new: "k \<notin> set (map fst m) \<Longrightarrow> dict_set m k v = m @ [(k, v)]"
  by (induction m) auto

lemma ensure_newline_ends: "endswith (ensure_newline t) [CHR 0x0A]"
  by (simp add: ensure_newline_def endswith_def)

lemma no_delimiter_lineD:
  "no_delimiter_line t \<Longrightarrow> \<forall>l\<in>set (splitlines t). strip l \<noteq> ''---''"
  by (simp add: no_delimiter_line_def list_all_iff)

lemma reconstruct_reparses:
  assumes d: "dump y v = Inr t"
    and l: "safe_load y (ensure_newline t) = Inr v"
    and c: "no_delimiter_line (ensure_newline t)"
    and tr: "truthy v"
  shows "\<exists>new. reconstruct_content y v body = Inr new
            \<and> parse_frontmatter y new = Inr (Some v, body)"
proof -
  have "parse_frontmatter y (delimiter_line @ ensure_newline t @ delimiter_line @ body)
          = Inr (Some v, body)"
    using no_delimiter_lineD [OF c] ensure_newline_ends l tr by (rule parse_reconstructed)
  then show ?thesis
    using d by (simp add: reconstruct_content_def)
qed

text \<open>
  Claim C1. The parser takes for the closing delimiter the first later line that is \<open>---\<close>
  once stripped of whitespace on both sides, indentation included, while it asks the opening
  delimiter to be \<open>---\<close> and a line break, nothing else. A value with a line \<open>---\<close> in it is
  dumped over several lines, one of them that line indented, so the processor does not read
  back what it wrote: the document below parses to a mapping of one key, not \<open>heading\<close>,
  and the processed text parses to "no metadata", not to the mapping of two keys.
\<close>

theorem multiline_value_breaks_roundtrip:
  "parse_frontmatter yaml_sample multiline_value_document
     = Inr (Some (YMap [(YStr ''k'', YStr ''a\<newline>---\<newline>b'')]), ''body'')
   \<and> compute_update yaml_sample default_tables (default_config ''Vault'') [''note.md'']
       multiline_value_document = Inr (Some multiline_value_rewritten)
   \<and> strip ''  ---\<newline>'' = ''---''
   \<and> split_at_closing (tl (splitlines multiline_value_rewritten))
       = Some ([''k: '' @ [CHR 0x27] @ ''a\<newline>'', ''\<newline>''],
               [''\<newline>'', ''  b'' @ [CHR 0x27] @ ''\<newline>'', ''heading: note\<newline>'',
                ''---\<newline>'', ''body''])
   \<and> parse_frontmatter yaml_sample multiline_value_rewritten
       = Inr (None, multiline_value_rewritten)"
  by code_simp

text \<open>
  Where the dump has no such line, the processor reads back what it wrote. Let a document
  parse to a mapping \<open>m\<close> without the key \<open>heading\<close>, or to no metadata (then \<open>m\<close> is
  empty). If the YAML library reads back what it dumps for \<open>m\<close> with \<open>heading\<close> appended,
  and no line of that dump is \<open>---\<close> once stripped, then the processed text parses to \<open>m\<close>
  with \<open>heading\<close> as its last key and the same body; and for a document without metadata
  the body is the whole original text.
\<close>

lemma add_heading_roundtrip:
  assumes p: "parse_frontmatter y content = Inr (fm, body)"
    and fm: "fm = Some (YMap m) \<or> (fm = None \<and> m = [])"
    and nh: "YStr ''heading'' \<notin> set (map fst m)"
    and d: "dump y (YMap (m @ [(YStr ''heading'', YStr (generate_heading_value tb cfg file_path))]))
              = Inr t"
    and l: "safe_load y (ensure_newline t)
              = Inr (YMap (m @ [(YStr ''heading'', YStr (generate_heading_value tb cfg file_path))]))"
    and c: "no_delimiter_line (ensure_newline t)"
  shows "\<exists>new. compute_update y tb cfg file_path content = Inr (Some new)
           \<and> parse_frontmatter y new
               = Inr (Some (YMap (m @ [(YStr ''heading'',
                                         YStr (generate_heading_value tb cfg file_path))])), body)
           \<and> (fm = None \<longrightarrow> body = content)"
proof -
  let ?h = "generate_heading_value tb cfg file_path"
  let ?v = "YMap (m @ [(YStr ''heading'', YStr ?h)])"
  have tr: "truthy ?v" by simp
  from reconstruct_reparses [OF d l c tr]
  obtain new where r: "reconstruct_content y ?v body = Inr new"
    and rp: "parse_frontmatter y new = Inr (Some ?v, body)"
    by blast
  have ah: "already_has_heading cfg fm = Inr False"
    using fm nh by (cases "m = []") (auto simp: already_has_heading_def)
  have sh: "set_heading (case fm of None \<Rightarrow> YMap [] | Some v \<Rightarrow> v) ?h = Inr ?v"
    using fm nh by (auto simp: dict_set_new)
  have "compute_update y tb cfg file_path content = Inr (Some new)"
    using p ah sh r by (simp add: compute_update_def updated_frontmatter_def Let_def)
  moreover have "fm = None \<longrightarrow> body = content"
    using p parse_None_body by blast
  ultimately show ?thesis
    using rp by blast
qed


lemma add_heading_roundtrip_example:
  "(parse_frontmatter yaml_sample ''---\<newline>title: Test\<newline>---\<newline>body\<newline>''
      = Inr (Some (YMap [(YStr ''title'', YStr ''Test'')]), ''body\<newline>'')
    \<and> YStr ''heading'' \<notin> set (map fst [(YStr ''title'', YStr ''Test'')])
    \<and> no_delimiter_line (ensure_newline ''title: Test\<newline>heading: note\<newline>'')
    \<and> (\<exists>new. compute_update yaml_sample default_tables (default_config ''Vault'') [''note.md'']
                 ''---\<newline>title: Test\<newline>---\<newline>body\<newline>'' = Inr (Some new)
          \<and> parse_frontmatter yaml_sample new
              = Inr (Some (YMap ([(YStr ''title'', YStr ''Test'')] @ [(YStr ''heading'', YStr ''note'')])),
                     ''body\<newline>'')))
   \<and> (parse_frontmatter yaml_sample ''hello\<newline>'' = Inr (None, ''hello\<newline>'')
    \<and> no_delimiter_line (ensure_newline ''heading: note\<newline>'')
    \<and> (\<exists>new. compute_update yaml_sample default_tables (default_config ''Vault'') [''note.md'']
                 ''hello\<newline>'' = Inr (Some new)
          \<and> parse_frontmatter yaml_sample new
              = Inr (Some (YMap ([] @ [(YStr ''heading'', YStr ''note'')])), ''hello\<newline>'')))"
proof -
  have hv: "generate_heading_value default_tables (default_config ''Vault'') [''note.md''] = ''note''"
    by code_simp
  have p1: "parse_frontmatter yaml_sample ''---\<newline>title: Test\<newline>---\<newline>body\<newline>''
      = Inr (Some (YMap [(YStr ''title'', YStr ''Test'')]), ''body\<newline>'')"
    by code_simp
  have n1: "YStr ''heading'' \<notin> set (map fst [(YStr ''title'', YStr ''Test'')])"
    by simp
  have d1: "dump yaml_sample (YMap ([(YStr ''title'', YStr ''Test'')] @ [(YStr ''heading'',
               YStr (generate_heading_value default_tables (default_config ''Vault'') [''note.md'']))]))
             = Inr ''title: Test\<newline>heading: note\<newline>''"
    unfolding hv by code_simp
  have l1: "safe_load yaml_sample (ensure_newline ''title: Test\<newline>heading: note\<newline>'')
             = Inr (YMap ([(YStr ''title'', YStr ''Test'')] @ [(YStr ''heading'',
               YStr (generate_heading_value default_tables (default_config ''Vault'') [''note.md'']))]))"
    unfolding hv by code_simp
  have c1: "no_delimiter_line (ensure_newline ''title: Test\<newline>heading: note\<newline>'')"
    by code_simp
  have p2: "parse_frontmatter yaml_sample ''hello\<newline>'' = Inr (None, ''hello\<newline>'')"
    by code_simp
  have d2: "dump yaml_sample (YMap ([] @ [(YStr ''heading'',
               YStr (generate_heading_value default_tables (default_config ''Vault'') [''note.md'']))]))
             = Inr ''heading: note\<newline>''"
    unfolding hv by code_simp
  have l2: "safe_load yaml_sample (ensure_newline ''heading: note\<newline>'')
             = Inr (YMap ([] @ [(YStr ''heading'',
               YStr (generate_heading_value default_tables (default_config ''Vault'') [''note.md'']))]))"
    unfolding hv by code_simp
  have c2: "no_delimiter_line (ensure_newline ''heading: note\<newline>'')"
    by code_simp
  have r1: "\<exists>new. compute_update yaml_sample default_tables (default_config ''Vault'') [''note.md'']
                 ''---\<newline>title: Test\<newline>---\<newline>body\<newline>'' = Inr (Some new)
          \<and> parse_frontmatter yaml_sample new
              = Inr (Some (YMap ([(YStr ''title'', YStr ''Test'')] @ [(YStr ''heading'', YStr ''note'')])),
                     ''body\<newline>'')"
    using add_heading_roundtrip [OF p1 _ n1 d1 l1 c1] unfolding hv by blast
  have n2: "YStr ''heading'' \<notin> set (map fst ([] :: (yval \<times> yval) list))"
    by simp
  have r2: "\<exists>new. compute_update yaml_sample default_tables (default_config ''Vault'') [''note.md'']
                 ''hello\<newline>'' = Inr (Some new)
          \<and> parse_frontmatter yaml_sample new
              = Inr (Some (YMap ([] @ [(YStr ''heading'', YStr ''note'')])), ''hello\<newline>'')"
    using add_heading_roundtrip [OF p2 _ n2 d2 l2 c2] unfolding hv by blast
  from p1 n1 c1 r1 p2 c2 r2 show ?thesis
    by blast
qed

section \<open>Properties of the File Processor\<close>

lemma process_file_alt:
  "process_file y tb cfg ws p =
     (fst (process_file_try y tb cfg (fst ws) p),
      count_result (snd ws) (snd (process_file_try y tb cfg (fst ws) p)))"
  by (simp add: process_file_def case_prod_beta)


lemma count_result_total:
  "processed (count_result st r) + skipped_existing (count_result st r) + errors (count_result st r)
     = processed st + skipped_existing st + errors st + 1"
  by (simp add: count_result_def split: sum.split outcome.split)

lemma process_file_total:
  "processed (snd (process_file y tb cfg ws p)) + skipped_existing (snd (process_file y tb cfg ws p))
     + errors (snd (process_file y tb cfg ws p))
   = processed (snd ws) + skipped_existing (snd ws) + errors (snd ws) + 1"
  by (simp add: process_file_alt count_result_total)

lemma process_files_total:
  "processed (snd (process_files y tb cfg ws ps)) + skipped_existing (snd (process_files y tb cfg ws ps))
     + errors (snd (process_files y tb cfg ws ps))
   = processed (snd ws) + skipped_existing (snd ws) + errors (snd ws) + length ps"
proof (induction ps arbitrary: ws)
  case Nil
  show ?case by simp
next
  case (Cons p ps)
  show ?case
    using Cons.IH [of "process_file y tb cfg ws p"] process_file_total [of y tb cfg ws p]
    by simp
qed



section \<open>Dry run\<close>

lemma dry_run_try_world:
  "dry_run cfg \<Longrightarrow> fst (process_file_try y tb cfg w p) = w"
  by (simp add: process_file_try_def split: sum.split option.split)

lemma dry_run_process_files:
  "dry_run cfg \<Longrightarrow>
     process_files y tb cfg (w, st) ps
       = (w, foldl count_result st (map (\<lambda>p. snd (process_file_try y tb cfg w p)) ps))"
proof (induction ps arbitrary: st)
  case Nil
  show ?case by simp
next
  case (Cons p ps)
  have "process_file y tb cfg (w, st) p = (w, count_result st (snd (process_file_try y tb cfg w p)))"
    using dry_run_try_world [OF Cons.prems, of y tb w p]
    by (simp add: process_file_alt)
  then show ?case
    using Cons.IH [OF Cons.prems] by simp
qed

lemma processed_foldl:
  "processed (foldl count_result st rs)
     = processed st + length (filter (\<lambda>r. r = Inr Processed) rs)"
proof (induction rs arbitrary: st)
  case Nil
  show ?case by simp
next
  case (Cons r rs)
  have "processed (count_result st r) = processed st + (if r = Inr Processed then 1 else 0)"
    by (simp add: count_result_def split: sum.split outcome.split)
  with Cons.IH [of "count_result st r"] show ?case by simp
qed

lemma find_markdown_files_counters:
  "processed (snd (find_markdown_files cfg st v)) = processed st
   \<and> skipped_existing (snd (find_markdown_files cfg st v)) = skipped_existing st
   \<and> errors (snd (find_markdown_files cfg st v)) = errors st"
  by (simp add: find_markdown_files_def Let_def)

lemma skipped_foldl:
  "skipped_existing (foldl count_result st rs)
     = skipped_existing st + length (filter (\<lambda>r. r = Inr SkippedExisting) rs)"
proof (induction rs arbitrary: st)
  case Nil
  show ?case by simp
next
  case (Cons r rs)
  have "skipped_existing (count_result st r)
          = skipped_existing st + (if r = Inr SkippedExisting then 1 else 0)"
    by (simp add: count_result_def split: sum.split outcome.split)
  with Cons.IH [of "count_result st r"] show ?case by simp
qed

lemma errors_foldl:
  "errors (foldl count_result st rs) = errors st + length (filter isl rs)"
proof (induction rs arbitrary: st)
  case Nil
  show ?case by simp
next
  case (Cons r rs)
  have "errors (count_result st r) = errors st + (if isl r then 1 else 0)"
    by (simp add: count_result_def split: sum.split outcome.split)
  with Cons.IH [of "count_result st r"] show ?case by simp
qed

lemma skipped_special_foldl:
  "skipped_special (foldl count_result st rs) = skipped_special st"
proof (induction rs arbitrary: st)
  case Nil
  show ?case by simp
next
  case (Cons r rs)
  have "skipped_special (count_result st r) = skipped_special st"
    by (simp add: count_result_def split: sum.split outcome.split)
  with Cons.IH [of "count_result st r"] show ?case by simp
qed

lemma parse_value_truthy:
  assumes "parse_frontmatter y content = Inr (Some v, body)"
  shows "truthy v \<or> v = YMap []"
  using assms
  by (auto simp: parse_frontmatter_def split: if_splits option.splits sum.splits exn.splits)

lemma already_has_heading_iff:
  "already_has_heading cfg fm = Inr True
     \<longleftrightarrow> skip_existing cfg \<and> (\<exists>v. fm = Some v \<and> truthy v \<and> contains_heading v = Inr True)"
  by (cases fm) (auto simp: already_has_heading_def split: sum.splits bool.splits)

lemma updated_frontmatter_None_iff:
  "updated_frontmatter y tb cfg p content = Inr None
     \<longleftrightarrow> (\<exists>fm body. parse_frontmatter y content = Inr (fm, body)
            \<and> already_has_heading cfg fm = Inr True)"
  by (auto simp: updated_frontmatter_def Let_def split: sum.splits bool.splits)

lemma compute_update_None_iff:
  "compute_update y tb cfg p content = Inr None
     \<longleftrightarrow> updated_frontmatter y tb cfg p content = Inr None"
  by (auto simp: compute_update_def split: sum.splits option.splits)

lemma skips_file_iff:
  "skips_file y tb cfg w p \<longleftrightarrow> skip_existing cfg \<and> has_heading y w p"
proof (cases "read_text w p")
  case (Inl e)
  then show ?thesis by (simp add: skips_file_def has_heading_def)
next
  case (Inr content)
  show ?thesis
  proof (cases "parse_frontmatter y content")
    case (Inl e)
    with Inr show ?thesis
      by (simp add: skips_file_def has_heading_def compute_update_None_iff
          updated_frontmatter_None_iff)
  next
    case pr: (Inr r)
    obtain fm body where r: "r = (fm, body)" by (cases r) auto
    from Inr pr r show ?thesis
      by (cases fm)
        (auto simp: skips_file_def has_heading_def compute_update_None_iff
          updated_frontmatter_None_iff already_has_heading_iff)
  qed
qed

lemma try_skipped_iff:
  "snd (process_file_try y tb cfg w p) = Inr SkippedExisting \<longleftrightarrow> skips_file y tb cfg w p"
  by (auto simp: process_file_try_def skips_file_def split: sum.splits option.splits)

lemma dry_run_processed_iff:
  "dry_run cfg \<Longrightarrow>
     snd (process_file_try y tb cfg w p) = Inr Processed \<longleftrightarrow> computes_content y tb cfg w p"
  by (auto simp: process_file_try_def computes_content_def split: sum.splits option.splits)

lemma dry_run_raises_iff:
  "dry_run cfg \<Longrightarrow>
     isl (snd (process_file_try y tb cfg w p)) \<longleftrightarrow> computation_raises y tb cfg w p"
  by (auto simp: process_file_try_def computation_raises_def split: sum.splits option.splits)

text \<open>
  Claim C8, as stated, fails: in a dry run over a vault whose one eligible file already has
  a heading, nothing is counted under \<open>processed\<close>; the file is counted as skipped.
\<close>

theorem dry_run_skips_headed_file:
  "dry_run dry_config
   \<and> fst (find_markdown_files dry_config no_stats (files headed_world)) = [[''done.md'']]
   \<and> process_vault yaml_sample default_tables dry_config (headed_world, no_stats)
       = ((headed_world, \<lparr>processed = 0, skipped_existing = 1, skipped_special = 0, errors = 0\<rparr>),
          Some [0, 1, 0, 0, 1])"
  by code_simp

text \<open>
  Claim C8, amended. In a dry run the vault after the run is the vault before it: no file is
  written and no backup made. Each of the K files the walker found is counted once:
  \<open>processed\<close> grows by the number of files for which a new content was computed,
  \<open>skipped_existing\<close> by the number of files in which a heading was found, if skip-existing
  is enabled, and by nothing otherwise, and \<open>errors\<close> by the number of files whose reading
  or computation raised; \<open>skipped_special\<close> stays what the walker made it.
\<close>

theorem dry_run_leaves_vault:
  assumes "dry_run cfg"
  shows "fst (fst (process_vault y tb cfg (w, st))) = w
   \<and> processed (snd (fst (process_vault y tb cfg (w, st))))
       = processed st
         + length (filter (computes_content y tb cfg w) (fst (find_markdown_files cfg st (files w))))
   \<and> skipped_existing (snd (fst (process_vault y tb cfg (w, st))))
       = skipped_existing st
         + length (filter (\<lambda>p. skip_existing cfg \<and> has_heading y w p)
                     (fst (find_markdown_files cfg st (files w))))
   \<and> errors (snd (fst (process_vault y tb cfg (w, st))))
       = errors st
         + length (filter (computation_raises y tb cfg w) (fst (find_markdown_files cfg st (files w))))
   \<and> skipped_special (snd (fst (process_vault y tb cfg (w, st))))
       = skipped_special (snd (find_markdown_files cfg st (files w)))
   \<and> processed (snd (fst (process_vault y tb cfg (w, st))))
       + skipped_existing (snd (fst (process_vault y tb cfg (w, st))))
       + errors (snd (fst (process_vault y tb cfg (w, st))))
       = processed st + skipped_existing st + errors st
         + length (fst (find_markdown_files cfg st (files w)))"
proof -
  obtain md st1 where f: "find_markdown_files cfg st (files w) = (md, st1)"
    by (cases "find_markdown_files cfg st (files w)") auto
  have c: "processed st1 = processed st \<and> skipped_existing st1 = skipped_existing st
             \<and> errors st1 = errors st"
    using find_markdown_files_counters [of cfg st "files w"] f by simp
  let ?rs = "map (\<lambda>p. snd (process_file_try y tb cfg w p)) md"
  have pf: "process_files y tb cfg (w, st1) md = (w, foldl count_result st1 ?rs)"
    using assms by (rule dry_run_process_files)
  have pv: "fst (process_vault y tb cfg (w, st)) = (w, foldl count_result st1 ?rs)"
    using f pf by (cases "md = []") (simp_all add: process_vault_def Let_def)
  have p: "length (filter (\<lambda>r. r = Inr Processed) ?rs)
             = length (filter (computes_content y tb cfg w) md)"
    using dry_run_processed_iff [OF assms, of y tb w]
    by (simp add: filter_map o_def)
  have s: "length (filter (\<lambda>r. r = Inr SkippedExisting) ?rs)
             = length (filter (\<lambda>p. skip_existing cfg \<and> has_heading y w p) md)"
    by (simp add: filter_map o_def try_skipped_iff skips_file_iff)
  have e: "length (filter isl ?rs) = length (filter (computation_raises y tb cfg w) md)"
    using dry_run_raises_iff [OF assms, of y tb w]
    by (simp add: filter_map o_def)
  have t: "processed (snd (process_files y tb cfg (w, st1) md))
       + skipped_existing (snd (process_files y tb cfg (w, st1) md))
       + errors (snd (process_files y tb cfg (w, st1) md))
       = processed st + skipped_existing st + errors st + length md"
    using process_files_total [of y tb cfg "(w, st1)" md] c by simp
  have t': "processed (foldl count_result st1 ?rs) + skipped_existing (foldl count_result st1 ?rs)
       + errors (foldl count_result st1 ?rs)
       = processed st + skipped_existing st + errors st + length md"
    using t pf by simp
  show ?thesis
    unfolding pv f fst_conv snd_conv
    using c p s e t'
    by (simp only: processed_foldl skipped_foldl errors_foldl skipped_special_foldl simp_thms)
qed

theorem dry_run_leaves_vault_witness:
  "dry_run dry_config
   \<and> fst (find_markdown_files dry_config no_stats (files three_world))
       = [[''bad.md''], [''done.md''], [''note.md'']]
   \<and> filter (computes_content yaml_sample default_tables dry_config three_world)
        [[''bad.md''], [''done.md''], [''note.md'']] = [[''note.md'']]
   \<and> filter (\<lambda>p. skip_existing dry_config \<and> has_heading yaml_sample three_world p)
        [[''bad.md''], [''done.md''], [''note.md'']] = [[''done.md'']]
   \<and> filter (computation_raises yaml_sample default_tables dry_config three_world)
        [[''bad.md''], [''done.md''], [''note.md'']] = [[''bad.md'']]
   \<and> fst (fst (process_vault yaml_sample default_tables dry_config (three_world, no_stats)))
       = three_world
   \<and> processed (snd (fst (process_vault yaml_sample default_tables dry_config
        (three_world, no_stats)))) = 1
   \<and> skipped_existing (snd (fst (process_vault yaml_sample default_tables dry_config
        (three_world, no_stats)))) = 1
   \<and> errors (snd (fst (process_vault yaml_sample default_tables dry_config
        (three_world, no_stats)))) = 1
   \<and> process_vault yaml_sample default_tables dry_config (three_world, no_stats)
       = ((three_world, \<lparr>processed = 1, skipped_existing = 1, skipped_special = 0, errors = 1\<rparr>),
          Some [1, 1, 0, 1, 3])"
proof -
  have h: "dry_run dry_config"
    by (simp add: dry_config_def)
  have md: "fst (find_markdown_files dry_config no_stats (files three_world))
       = [[''bad.md''], [''done.md''], [''note.md'']]"
    by code_simp
  have fp: "filter (computes_content yaml_sample default_tables dry_config three_world)
        [[''bad.md''], [''done.md''], [''note.md'']] = [[''note.md'']]"
    by code_simp
  have fs: "filter (\<lambda>p. skip_existing dry_config \<and> has_heading yaml_sample three_world p)
        [[''bad.md''], [''done.md''], [''note.md'']] = [[''done.md'']]"
    by code_simp
  have fe: "filter (computation_raises yaml_sample default_tables dry_config three_world)
        [[''bad.md''], [''done.md''], [''note.md'']] = [[''bad.md'']]"
    by code_simp
  have z: "processed no_stats = 0 \<and> skipped_existing no_stats = 0 \<and> errors no_stats = 0"
    by (simp add: no_stats_def)
  have v: "process_vault yaml_sample default_tables dry_config (three_world, no_stats)
       = ((three_world, \<lparr>processed = 1, skipped_existing = 1, skipped_special = 0, errors = 1\<rparr>),
          Some [1, 1, 0, 1, 3])"
    by code_simp
  note t = dry_run_leaves_vault [OF h, of yaml_sample default_tables three_world no_stats]
  have r0: "fst (fst (process_vault yaml_sample default_tables dry_config (three_world, no_stats)))
       = three_world"
    using t by blast
  have r1: "processed (snd (fst (process_vault yaml_sample default_tables dry_config
        (three_world, no_stats)))) = 1"
    using t z unfolding md fp by simp
  have r2: "skipped_existing (snd (fst (process_vault yaml_sample default_tables dry_config
        (three_world, no_stats)))) = 1"
    using t z unfolding md fs by simp
  have r3: "errors (snd (fst (process_vault yaml_sample default_tables dry_config
        (three_world, no_stats)))) = 1"
    using t z unfolding md fe by simp
  from h md fp fs fe v r0 r1 r2 r3 show ?thesis
    by blast
qed

section \<open>Running twice\<close>

lemma map_of_put_file:
  "map_of (put_file v p n) q = (if q = p then Some n else map_of v q)"
  by (induction v) auto

lemma keys_put_file:
  "map fst (put_file v p n) = (if p \<in> set (map fst v) then map fst v else map fst v @ [p])"
  by (induction v) (auto simp: rev_image_eqI)

lemma str_lower_bak: "str_lower ''.bak'' = ''.bak''"
  by code_simp

lemma classify_backup: "classify_file (last (backup_path p)) = Ignored"
proof -
  have "\<not> endswith (str_lower (last p) @ ''.bak'') ''.md''"
    by (simp add: endswith_def)
  then show ?thesis
    by (simp add: backup_path_def classify_file_def str_lower_append str_lower_bak)
qed

lemma read_text_key:
  assumes "read_text w p = Inr c"
  shows "p \<in> set (map fst (files w))"
proof -
  from assms have "map_of (files w) p \<noteq> None"
    by (auto simp: read_text_def split: option.splits)
  then show ?thesis
    by (simp add: map_of_eq_None_iff)
qed

lemma try_world:
  "fst (process_file_try y tb cfg w p) = w
   \<or> (p \<in> set (map fst (files w))
       \<and> (\<exists>c. fst (process_file_try y tb cfg w p) = w\<lparr>files := put_file (files w) p (Text c)\<rparr>))
   \<or> (p \<in> set (map fst (files w))
       \<and> (\<exists>n c. fst (process_file_try y tb cfg w p)
                = w\<lparr>files := put_file (put_file (files w) (backup_path p) n) p (Text c)\<rparr>))
   \<or> (\<exists>n. fst (process_file_try y tb cfg w p) = w\<lparr>files := put_file (files w) (backup_path p) n\<rparr>)"
proof (cases "read_text w p")
  case (Inl e)
  then show ?thesis by (simp add: process_file_try_def)
next
  case (Inr content)
  note rd = this
  have key: "p \<in> set (map fst (files w))" using rd by (rule read_text_key)
  show ?thesis
  proof (cases "compute_update y tb cfg p content")
    case (Inl e)
    with rd show ?thesis by (simp add: process_file_try_def)
  next
    case (Inr u)
    note cu = this
    show ?thesis
    proof (cases u)
      case None
      with rd cu show ?thesis by (simp add: process_file_try_def)
    next
      case (Some new)
      show ?thesis
      proof (cases "dry_run cfg")
        case True
        with rd cu Some show ?thesis by (simp add: process_file_try_def)
      next
        case nd: False
        show ?thesis
        proof (cases "backup cfg")
          case False
          with rd cu Some nd key show ?thesis
            by (auto simp: process_file_try_def write_text_def)
        next
          case True
          with rd cu Some nd key show ?thesis
            by (auto simp: process_file_try_def write_text_def copy2_def
                split: option.splits)
        qed
      qed
    qed
  qed
qed

lemma try_locked: "locked (fst (process_file_try y tb cfg w p)) = locked w"
  using try_world [of y tb cfg w p] by auto

lemma try_other:
  assumes "q \<noteq> p" and "q \<noteq> backup_path p"
  shows "map_of (files (fst (process_file_try y tb cfg w p))) q = map_of (files w) q"
  using try_world [of y tb cfg w p] assms by (auto simp: map_of_put_file)

lemma try_keys:
  "\<exists>ex. map fst (files (fst (process_file_try y tb cfg w p))) = map fst (files w) @ ex
        \<and> set ex \<subseteq> {backup_path p}"
  using try_world [of y tb cfg w p]
  by (elim disjE conjE exE) (auto simp: keys_put_file)


lemma dict_set_has_key: "k \<in> set (map fst (dict_set m k v))"
  by (induction m) (auto simp: rev_image_eqI)

lemma set_heading_result:
  assumes "set_heading fm h = Inr v"
  shows "\<exists>m. v = YMap m \<and> YStr ''heading'' \<in> set (map fst m)"
  using assms by (cases fm) (auto simp: dict_set_has_key simp del: set_map)

lemma updated_frontmatter_result:
  assumes "updated_frontmatter y tb cfg p c = Inr (Some (v, body))"
  shows "\<exists>m. v = YMap m \<and> YStr ''heading'' \<in> set (map fst m)"
proof -
  from assms obtain fm h where "set_heading fm h = Inr v"
    by (auto simp: updated_frontmatter_def Let_def split: sum.splits prod.splits bool.splits)
  then show ?thesis by (rule set_heading_result)
qed

lemma rewritten_is_skipped:
  assumes u: "updated_frontmatter y tb cfg p c = Inr (Some (v, body))"
    and r: "reconstruct_content y v body = Inr new"
    and rp: "parse_frontmatter y new = Inr (Some v, body)"
    and sk: "skip_existing cfg"
  shows "compute_update y tb cfg p c = Inr (Some new)
           \<and> compute_update y tb cfg p new = Inr None"
proof -
  from updated_frontmatter_result [OF u]
  obtain m where v: "v = YMap m" and k: "YStr ''heading'' \<in> set (map fst m)"
    by blast
  from k have ne: "m \<noteq> []" by auto
  have a: "compute_update y tb cfg p c = Inr (Some new)"
    using u r by (simp add: compute_update_def)
  have "already_has_heading cfg (Some v) = Inr True"
    using k ne sk by (simp add: already_has_heading_def v del: set_map)
  then have "updated_frontmatter y tb cfg p new = Inr None"
    using rp by (simp add: updated_frontmatter_def)
  then have b: "compute_update y tb cfg p new = Inr None"
    by (simp add: compute_update_def)
  from a b show ?thesis by blast
qed

lemma skip_try:
  assumes "skips_file y tb cfg w p"
  shows "process_file_try y tb cfg w p = (w, Inr SkippedExisting)"
  using assms by (auto simp: skips_file_def process_file_try_def split: sum.splits)

lemma skips_settles:
  assumes "skips_file y tb cfg w p"
  shows "file_settles y tb cfg w p"
proof -
  from assms obtain c where rd: "read_text w p = Inr c"
    and cu: "compute_update y tb cfg p c = Inr None"
    by (auto simp: skips_file_def split: sum.splits)
  from cu have "updated_frontmatter y tb cfg p c = Inr None"
    by (simp add: compute_update_None_iff)
  with rd show ?thesis
    by (simp add: file_settles_def)
qed

lemma settles_step:
  assumes st: "file_settles y tb cfg w p" and sk: "skip_existing cfg" and nd: "\<not> dry_run cfg"
  shows "skips_file y tb cfg (fst (process_file_try y tb cfg w p)) p"
proof -
  from st obtain c where rd: "read_text w p = Inr c"
    by (auto simp: file_settles_def split: sum.splits)
  from rd have mp: "map_of (files w) p = Some (Text c)"
    by (auto simp: read_text_def split: option.splits fnode.splits)
  from st rd obtain u where uf: "updated_frontmatter y tb cfg p c = Inr u"
    by (auto simp: file_settles_def split: sum.splits)
  show ?thesis
  proof (cases u)
    case None
    with uf have "compute_update y tb cfg p c = Inr None"
      by (simp add: compute_update_def)
    with rd have sf: "skips_file y tb cfg w p"
      by (simp add: skips_file_def)
    with skip_try [OF sf] show ?thesis by simp
  next
    case (Some vb)
    obtain v body where vb: "vb = (v, body)" by (cases vb) auto
    from uf Some vb have uf': "updated_frontmatter y tb cfg p c = Inr (Some (v, body))"
      by simp
    from st rd uf' obtain new where r: "reconstruct_content y v body = Inr new"
      by (auto simp: file_settles_def split: sum.splits)
    from st rd uf' r have rp: "parse_frontmatter y new = Inr (Some v, body)"
      and lp: "p \<notin> set (locked w)"
      and lb: "backup cfg \<longrightarrow> backup_path p \<notin> set (locked w)"
      by (auto simp: file_settles_def)
    from rewritten_is_skipped [OF uf' r rp sk]
    have a: "compute_update y tb cfg p c = Inr (Some new)"
      and b: "compute_update y tb cfg p new = Inr None"
      by blast+
    have "read_text (fst (process_file_try y tb cfg w p)) p = Inr new"
      using rd a nd lp lb mp
      by (auto simp: process_file_try_def write_text_def copy2_def read_text_def map_of_put_file)
    with b show ?thesis
      by (simp add: skips_file_def)
  qed
qed

lemma skips_cong:
  "map_of (files w') p = map_of (files w) p
     \<Longrightarrow> skips_file y tb cfg w' p = skips_file y tb cfg w p"
  by (simp add: skips_file_def read_text_def)

lemma settles_cong:
  "map_of (files w') p = map_of (files w) p \<Longrightarrow> locked w' = locked w
     \<Longrightarrow> file_settles y tb cfg w' p = file_settles y tb cfg w p"
  by (auto simp: file_settles_def read_text_def
      split: sum.splits option.splits fnode.splits prod.splits)

lemma candidate_not_backup:
  "classify_file (last p) = Candidate \<Longrightarrow> p \<noteq> backup_path q"
  using classify_backup [of q] by auto

text \<open>Processing a file leaves every other candidate as it is: the file written is the
  file itself, and the backup is no candidate.\<close>

lemma skips_kept:
  assumes s: "skips_file y tb cfg w p" and c: "classify_file (last p) = Candidate"
  shows "skips_file y tb cfg (fst (process_file_try y tb cfg w q)) p"
proof (cases "p = q")
  case True
  with skip_try [OF s] s show ?thesis by simp
next
  case False
  have nb: "p \<noteq> backup_path q" using c by (rule candidate_not_backup)
  show ?thesis
    using skips_cong [OF try_other [OF False nb], of y tb cfg y tb cfg w] s by simp
qed

lemma settles_kept:
  assumes s: "file_settles y tb cfg w p" and c: "classify_file (last p) = Candidate"
    and sk: "skip_existing cfg" and nd: "\<not> dry_run cfg"
  shows "file_settles y tb cfg (fst (process_file_try y tb cfg w q)) p"
proof (cases "p = q")
  case True
  with settles_step [OF s sk nd] show ?thesis by (simp add: skips_settles)
next
  case False
  have nb: "p \<noteq> backup_path q" using c by (rule candidate_not_backup)
  have "file_settles y tb cfg (fst (process_file_try y tb cfg w q)) p = file_settles y tb cfg w p"
    using try_other [OF False nb] try_locked by (rule settles_cong)
  with s show ?thesis by simp
qed

lemma skips_after_files:
  assumes "skips_file y tb cfg w q" and "classify_file (last q) = Candidate"
  shows "skips_file y tb cfg (fst (process_files y tb cfg (w, st) ps)) q"
  using assms(1)
proof (induction ps arbitrary: w st)
  case Nil
  then show ?case by simp
next
  case (Cons p ps)
  let ?w = "fst (process_file_try y tb cfg w p)"
  have "skips_file y tb cfg ?w q"
    using Cons.prems assms(2) by (rule skips_kept)
  then have "skips_file y tb cfg
      (fst (process_files y tb cfg (?w, count_result st (snd (process_file_try y tb cfg w p))) ps)) q"
    by (rule Cons.IH)
  then show ?case by (simp add: process_file_alt)
qed

lemma first_run_settles_all:
  assumes sk: "skip_existing cfg" and nd: "\<not> dry_run cfg"
    and cand: "\<forall>p\<in>S. classify_file (last p) = Candidate"
    and "\<forall>p\<in>S. file_settles y tb cfg w p"
    and "set ps \<subseteq> S"
  shows "\<forall>p\<in>set ps. skips_file y tb cfg (fst (process_files y tb cfg (w, st) ps)) p"
  using assms(4-5)
proof (induction ps arbitrary: w st)
  case Nil
  show ?case by simp
next
  case (Cons p ps)
  let ?w = "fst (process_file_try y tb cfg w p)"
  let ?st = "count_result st (snd (process_file_try y tb cfg w p))"
  have step: "process_files y tb cfg (w, st) (p # ps) = process_files y tb cfg (?w, ?st) ps"
    by (simp add: process_file_alt)
  from Cons.prems have pS: "p \<in> S" and sub: "set ps \<subseteq> S" by auto
  have sp: "skips_file y tb cfg ?w p"
    using Cons.prems(1) pS sk nd by (simp add: settles_step)
  have rest: "\<forall>q\<in>S. file_settles y tb cfg ?w q"
    using Cons.prems(1) cand sk nd by (simp add: settles_kept)
  have ih: "\<forall>q\<in>set ps. skips_file y tb cfg (fst (process_files y tb cfg (?w, ?st) ps)) q"
    using rest sub by (rule Cons.IH)
  have "skips_file y tb cfg (fst (process_files y tb cfg (?w, ?st) ps)) p"
    using sp cand pS by (simp add: skips_after_files)
  with ih show ?case
    unfolding step by simp
qed

lemma second_run_skips:
  assumes "\<forall>p\<in>set ps. skips_file y tb cfg w p"
  shows "process_files y tb cfg (w, st) ps
           = (w, st\<lparr>skipped_existing := skipped_existing st + length ps\<rparr>)"
  using assms
proof (induction ps arbitrary: st)
  case Nil
  show ?case by simp
next
  case (Cons p ps)
  from Cons.prems have "process_file_try y tb cfg w p = (w, Inr SkippedExisting)"
    by (simp add: skip_try)
  then have "process_file y tb cfg (w, st) p
               = (w, st\<lparr>skipped_existing := skipped_existing st + 1\<rparr>)"
    by (simp add: process_file_alt count_result_def)
  then show ?case
    using Cons.IH [of "st\<lparr>skipped_existing := skipped_existing st + 1\<rparr>"] Cons.prems by simp
qed

lemma process_files_keys:
  "\<exists>ex. map fst (files (fst (process_files y tb cfg (w, st) ps))) = map fst (files w) @ ex
        \<and> set ex \<subseteq> backup_path ` set ps"
proof (induction ps arbitrary: w st)
  case Nil
  show ?case by simp
next
  case (Cons p ps)
  let ?w = "fst (process_file_try y tb cfg w p)"
  let ?st = "count_result st (snd (process_file_try y tb cfg w p))"
  from try_keys [of y tb cfg w p]
  obtain e1 where e1: "map fst (files ?w) = map fst (files w) @ e1" "set e1 \<subseteq> {backup_path p}"
    by blast
  from Cons.IH [of ?w ?st]
  obtain e2 where e2: "map fst (files (fst (process_files y tb cfg (?w, ?st) ps)))
       = map fst (files ?w) @ e2" "set e2 \<subseteq> backup_path ` set ps"
    by blast
  have "map fst (files (fst (process_files y tb cfg (w, st) (p # ps))))
          = map fst (files w) @ (e1 @ e2)"
    using e1 e2 by (simp add: process_file_alt)
  moreover have "set (e1 @ e2) \<subseteq> backup_path ` set (p # ps)"
    using e1 e2 by auto
  ultimately show ?case by blast
qed

lemma find_markdown_files_stable:
  assumes "map fst v' = map fst v @ ex"
    and "\<forall>e\<in>set ex. classify_file (last e) = Ignored"
  shows "fst (find_markdown_files cfg st' v') = fst (find_markdown_files cfg st v)"
proof -
  have "filter (\<lambda>p. classify_file (last p) = Candidate)
          (filter (\<lambda>p. walk_reaches cfg (butlast p)) ex) = []"
    using assms(2) by (auto simp: filter_empty_conv)
  then show ?thesis
    using assms(1) by (simp add: find_markdown_files_def Let_def)
qed

lemma find_markdown_files_candidates:
  "p \<in> set (fst (find_markdown_files cfg st v)) \<Longrightarrow> classify_file (last p) = Candidate"
  by (simp add: find_markdown_files_def Let_def)

text \<open>
  The defect of the closing-line test shows in a second run as well: the document whose
  value holds a line \<open>---\<close> is rewritten by the first run into a text the parser finds no
  metadata in, and the second run puts a second metadata block before the first.
\<close>

lemma second_block_prepended:
  "process_vault yaml_sample default_tables (default_config ''Vault'') (multiline_world, no_stats)
       = ((multiline_world_after, \<lparr>processed = 1, skipped_existing = 0, skipped_special = 0, errors = 0\<rparr>),
          Some [1, 0, 0, 0, 1])
   \<and> process_vault yaml_sample default_tables (default_config ''Vault'') (multiline_world_after, no_stats)
       = ((multiline_world_after2, \<lparr>processed = 1, skipped_existing = 0, skipped_special = 0, errors = 0\<rparr>),
          Some [1, 0, 0, 0, 1])
   \<and> files multiline_world_after2 \<noteq> files multiline_world_after"
  by code_simp

text \<open>
  Claim C3, as stated, fails. A file whose processing raises is counted under \<open>errors\<close> on
  the first run and again on the second, not under \<open>skipped_existing\<close>. And in a dry run the
  first run writes nothing, so the second run finds the vault as the first did and counts
  every file without a heading under \<open>processed\<close> again.
\<close>

theorem second_run_is_not_all_skips:
  "skip_existing (default_config ''Vault'') \<and> \<not> dry_run (default_config ''Vault'')
   \<and> process_vault yaml_sample default_tables (default_config ''Vault'') (mixed_world, no_stats)
       = ((mixed_world_after, \<lparr>processed = 1, skipped_existing = 0, skipped_special = 0, errors = 1\<rparr>),
          Some [1, 0, 0, 1, 2])
   \<and> process_vault yaml_sample default_tables (default_config ''Vault'') (mixed_world_after, no_stats)
       = ((mixed_world_after, \<lparr>processed = 0, skipped_existing = 1, skipped_special = 0, errors = 1\<rparr>),
          Some [0, 1, 0, 1, 2])
   \<and> skip_existing dry_config \<and> dry_run dry_config
   \<and> process_vault yaml_sample default_tables dry_config (plain_world, no_stats)
       = ((plain_world, \<lparr>processed = 2, skipped_existing = 0, skipped_special = 0, errors = 0\<rparr>),
          Some [2, 0, 0, 0, 2])"
  by code_simp

text \<open>
  Claim C3, amended. With skip-existing enabled and dry-run disabled, take a vault in which
  the first run settles every file the walker finds: processing the file raises nothing,
  and where the file is rewritten the parser reads the metadata written back from the new
  content. Then a second run on the output of the first leaves the vault as it is and
  counts every one of those files under \<open>skipped_existing\<close>, none under \<open>processed\<close> or
  \<open>errors\<close>.
\<close>

theorem second_run_skips_all:
  assumes sk: "skip_existing cfg" and nd: "\<not> dry_run cfg"
    and se: "\<forall>p\<in>set (fst (find_markdown_files cfg st (files w))). file_settles y tb cfg w p"
  shows "fst (fst (process_vault y tb cfg (fst (fst (process_vault y tb cfg (w, st))), st2)))
           = fst (fst (process_vault y tb cfg (w, st)))
   \<and> fst (find_markdown_files cfg st2 (files (fst (fst (process_vault y tb cfg (w, st))))))
       = fst (find_markdown_files cfg st (files w))
   \<and> processed (snd (fst (process_vault y tb cfg (fst (fst (process_vault y tb cfg (w, st))), st2))))
       = processed st2
   \<and> errors (snd (fst (process_vault y tb cfg (fst (fst (process_vault y tb cfg (w, st))), st2))))
       = errors st2
   \<and> skipped_existing
        (snd (fst (process_vault y tb cfg (fst (fst (process_vault y tb cfg (w, st))), st2))))
       = skipped_existing st2 + length (fst (find_markdown_files cfg st (files w)))"
proof -
  obtain md st1 where f: "find_markdown_files cfg st (files w) = (md, st1)"
    by (cases "find_markdown_files cfg st (files w)") auto
  let ?w1 = "fst (process_files y tb cfg (w, st1) md)"
  have w1: "fst (fst (process_vault y tb cfg (w, st))) = ?w1"
    using f by (cases "md = []") (simp_all add: process_vault_def Let_def)
  have cand: "\<forall>p\<in>set md. classify_file (last p) = Candidate"
    using f find_markdown_files_candidates [of _ cfg st "files w"] by simp
  have sett: "\<forall>p\<in>set md. file_settles y tb cfg w p"
    using se f by simp
  have skips: "\<forall>p\<in>set md. skips_file y tb cfg ?w1 p"
    using sk nd cand sett subset_refl by (rule first_run_settles_all)
  from process_files_keys [of y tb cfg w st1 md]
  obtain ex where ex: "map fst (files ?w1) = map fst (files w) @ ex"
    and exb: "set ex \<subseteq> backup_path ` set md"
    by blast
  have ign: "\<forall>e\<in>set ex. classify_file (last e) = Ignored"
    using exb classify_backup by auto
  have same: "fst (find_markdown_files cfg st2 (files ?w1)) = fst (find_markdown_files cfg st (files w))"
    using ex ign by (rule find_markdown_files_stable)
  then obtain st3 where f2: "find_markdown_files cfg st2 (files ?w1) = (md, st3)"
    using f by (cases "find_markdown_files cfg st2 (files ?w1)") auto
  have c3: "processed st3 = processed st2 \<and> skipped_existing st3 = skipped_existing st2
              \<and> errors st3 = errors st2"
    using find_markdown_files_counters [of cfg st2 "files ?w1"] f2 by simp
  have run2: "process_files y tb cfg (?w1, st3) md
                = (?w1, st3\<lparr>skipped_existing := skipped_existing st3 + length md\<rparr>)"
    using skips by (rule second_run_skips)
  have "fst (process_vault y tb cfg (?w1, st2))
          = (?w1, st3\<lparr>skipped_existing := skipped_existing st3 + length md\<rparr>)"
    using f2 run2 by (cases "md = []") (simp_all add: process_vault_def Let_def)
  then show ?thesis
    using w1 c3 f same by simp
qed

theorem second_run_skips_all_witness:
  "skip_existing backup_config \<and> \<not> dry_run backup_config
   \<and> list_all (file_settles yaml_sample default_tables backup_config plain_world)
         (fst (find_markdown_files backup_config no_stats (files plain_world)))
   \<and> fst (find_markdown_files backup_config no_stats (files plain_world))
       = [[''a'', ''note.md''], [''note.md'']]
   \<and> process_vault yaml_sample default_tables backup_config (plain_world, no_stats)
       = ((plain_world_after, \<lparr>processed = 2, skipped_existing = 0, skipped_special = 0, errors = 0\<rparr>),
          Some [2, 0, 0, 0, 2])
   \<and> fst (fst (process_vault yaml_sample default_tables backup_config
        (plain_world_after, no_stats))) = plain_world_after
   \<and> skipped_existing (snd (fst (process_vault yaml_sample default_tables backup_config
        (plain_world_after, no_stats)))) = 2
   \<and> processed (snd (fst (process_vault yaml_sample default_tables backup_config
        (plain_world_after, no_stats)))) = 0
   \<and> errors (snd (fst (process_vault yaml_sample default_tables backup_config
        (plain_world_after, no_stats)))) = 0"
proof -
  have h1: "skip_existing backup_config"
    by (simp add: backup_config_def default_config_def)
  have h2: "\<not> dry_run backup_config"
    by (simp add: backup_config_def default_config_def)
  have h3: "\<forall>p\<in>set (fst (find_markdown_files backup_config no_stats (files plain_world))).
         file_settles yaml_sample default_tables backup_config plain_world p"
    by code_simp
  have h4: "fst (find_markdown_files backup_config no_stats (files plain_world))
       = [[''a'', ''note.md''], [''note.md'']]"
    by code_simp
  have h5: "list_all (file_settles yaml_sample default_tables backup_config plain_world)
         (fst (find_markdown_files backup_config no_stats (files plain_world)))"
    using h3 by (simp only: list_all_iff)
  have v: "process_vault yaml_sample default_tables backup_config (plain_world, no_stats)
       = ((plain_world_after, \<lparr>processed = 2, skipped_existing = 0, skipped_special = 0, errors = 0\<rparr>),
          Some [2, 0, 0, 0, 2])"
    by code_simp
  have w1: "fst (fst (process_vault yaml_sample default_tables backup_config
        (plain_world, no_stats))) = plain_world_after"
    by (simp only: v fst_conv)
  have z: "processed no_stats = 0 \<and> skipped_existing no_stats = 0 \<and> errors no_stats = 0"
    by (simp add: no_stats_def)
  have l: "length [[''a'', ''note.md''], [''note.md'']] = (2::nat)"
    by simp
  note t = second_run_skips_all [OF h1 h2 h3, of no_stats, unfolded w1 h4 l]
  have r0: "fst (fst (process_vault yaml_sample default_tables backup_config
        (plain_world_after, no_stats))) = plain_world_after"
    using t by blast
  have r1: "skipped_existing (snd (fst (process_vault yaml_sample default_tables
        backup_config (plain_world_after, no_stats)))) = 2"
    using t z by simp
  have r2: "processed (snd (fst (process_vault yaml_sample default_tables
        backup_config (plain_world_after, no_stats)))) = 0"
    using t z by simp
  have r3: "errors (snd (fst (process_vault yaml_sample default_tables
        backup_config (plain_world_after, no_stats)))) = 0"
    using t z by simp
  from h1 h2 h4 h5 v r0 r1 r2 r3 show ?thesis
    by blast
qed

end
